theory Spec2Isabelle
  imports Main "HOL-Library.Sublist"
begin

section \<open>Strings of the script\<close>

text \<open>
  The client script \<^verbatim>\<open>static/app.js\<close> works on JavaScript strings.  A string is modelled as
  a \<^typ>\<open>string\<close> whose characters are the UTF-16 code units below 256 (the Latin-1 range);
  the built-in string methods the script calls are written out on that range.  The texts
  the script shows to the user are lists of code units, since one of them has a character
  beyond that range.
\<close>

text \<open>The values \<^verbatim>\<open>normalizeIsbn\<close> receives: a string, \<^verbatim>\<open>null\<close> or \<^verbatim>\<open>undefined\<close>.\<close>

datatype jsval = JUndefined | JNull | JString string

text \<open>\<^verbatim>\<open>!s\<close>: \<^verbatim>\<open>undefined\<close>, \<^verbatim>\<open>null\<close> and the empty string are falsy.\<close>

fun falsy :: "jsval \<Rightarrow> bool" where
  "falsy JUndefined = True"
| "falsy JNull = True"
| "falsy (JString s) = (s = [])"

text \<open>\<^verbatim>\<open>String(s)\<close>.\<close>

fun String :: "jsval \<Rightarrow> string" where
  "String JUndefined = ''undefined''"
| "String JNull = ''null''"
| "String (JString s) = s"

text \<open>The regular expression class \<^verbatim>\<open>\d\<close>; \<^verbatim>\<open>\D\<close> is its complement.\<close>

definition isDigit :: "char \<Rightarrow> bool" where
  "isDigit c = (c \<in> set ''0123456789'')"

text \<open>
  \<^verbatim>\<open>function normalizeIsbn(s) { if (!s) return ''; return String(s).replace(/\D/g, ''); }\<close>
\<close>

definition normalizeIsbn :: "jsval \<Rightarrow> string" where
  "normalizeIsbn s = (if falsy s then [] else filter isDigit (String s))"

text \<open>\<^verbatim>\<open>str.replace(/c/g, r)\<close> for a single character \<open>c\<close> and a replacement without \<^verbatim>\<open>$\<close>.\<close>

definition replaceAll :: "char \<Rightarrow> string \<Rightarrow> string \<Rightarrow> string" where
  "replaceAll c r s = concat (map (\<lambda>x. if x = c then r else [x]) s)"

text \<open>
  \<^verbatim>\<open>escapeHtml\<close>: five global replacements, the ampersand first.
\<close>

definition escapeHtml :: "string \<Rightarrow> string" where
  "escapeHtml str =
     replaceAll (CHR ''>'') ''&gt;''
       (replaceAll (CHR ''<'') ''&lt;''
         (replaceAll (CHR 0x27) ''&#39;''
           (replaceAll (CHR 0x22) ''&quot;''
             (replaceAll (CHR ''&'') ''&amp;'' str))))"

text \<open>The five entities \<^verbatim>\<open>escapeHtml\<close> emits, each with the character it stands for.\<close>

definition entities :: "(string \<times> char) list" where
  "entities =
     [(''&amp;'', CHR ''&''), (''&quot;'', CHR 0x22), (''&#39;'', CHR 0x27),
      (''&lt;'', CHR ''<''), (''&gt;'', CHR ''>'')]"

text \<open>
  The decoder the specification speaks of ("decoding those five entities"): one pass from
  the left; at every position the entity that starts there, if any, is replaced by its
  character.  It is not part of the script.
\<close>

fun decodeEntities :: "string \<Rightarrow> string" where
  "decodeEntities [] = []"
| "decodeEntities (c # cs) =
     (case find (\<lambda>(e, _). prefix e (c # cs)) entities of
        Some (e, d) \<Rightarrow> d # decodeEntities (drop (length e - 1) cs)
      | None \<Rightarrow> c # decodeEntities cs)"

text \<open>An ampersand at position \<open>i\<close> of \<open>s\<close> starts one of the five entities.\<close>

definition startsEntity :: "string \<Rightarrow> nat \<Rightarrow> bool" where
  "startsEntity s i = list_ex (\<lambda>(e, _). prefix e (drop i s)) entities"

text \<open>
  The value of a double-quoted attribute whose text starts at the head of the given markup:
  everything up to the first double quote.
\<close>

definition attributeValue :: "string \<Rightarrow> string" where
  "attributeValue markup = takeWhile (\<lambda>c. c \<noteq> CHR 0x22) markup"

text \<open>
  What the five replacements of \<^verbatim>\<open>escapeHtml\<close> do to one character; used to reason
  about them character by character.
\<close>

definition escapeChar :: "char \<Rightarrow> string" where
  "escapeChar c =
     (if c = CHR ''&'' then ''&amp;''
      else if c = CHR 0x22 then ''&quot;''
      else if c = CHR 0x27 then ''&#39;''
      else if c = CHR ''<'' then ''&lt;''
      else if c = CHR ''>'' then ''&gt;''
      else [c])"

text \<open>Every ampersand of a string starts an entity, checked from the left.\<close>

fun ampersandsStartEntities :: "string \<Rightarrow> bool" where
  "ampersandsStartEntities [] = True"
| "ampersandsStartEntities (c # cs) =
     ((c = CHR ''&'' \<longrightarrow> startsEntity (c # cs) 0) \<and> ampersandsStartEntities cs)"

subsection \<open>Built-in string methods\<close>

text \<open>
  \<^verbatim>\<open>String.prototype.toLowerCase\<close> on the Latin-1 range: the letters A to Z and the
  accented capitals U+00C0 to U+00DE (without the multiplication sign U+00D7) move up by 32.
\<close>

definition toLowerCaseChar :: "char \<Rightarrow> char" where
  "toLowerCaseChar c =
     (let n = (of_char c :: nat)
      in if (65 \<le> n \<and> n \<le> 90) \<or> (192 \<le> n \<and> n \<le> 214) \<or> (216 \<le> n \<and> n \<le> 222)
         then char_of (n + 32) else c)"

definition toLowerCase :: "string \<Rightarrow> string" where
  "toLowerCase s = map toLowerCaseChar s"

text \<open>
  \<^verbatim>\<open>String.prototype.trim\<close>: white space and line terminators are removed at both ends
  (tab, line feed, vertical tab, form feed, carriage return, space, no-break space).
\<close>

definition isWhiteSpace :: "char \<Rightarrow> bool" where
  "isWhiteSpace c = ((of_char c :: nat) \<in> {9, 10, 11, 12, 13, 32, 160})"

definition trim :: "string \<Rightarrow> string" where
  "trim s = rev (dropWhile isWhiteSpace (rev (dropWhile isWhiteSpace s)))"

text \<open>\<^verbatim>\<open>s.includes(q)\<close>: \<open>q\<close> occurs in \<open>s\<close> at some position.\<close>

fun string_includes :: "string \<Rightarrow> string \<Rightarrow> bool" where
  "string_includes [] q = (q = [])"
| "string_includes (c # cs) q = (prefix q (c # cs) \<or> string_includes cs q)"

text \<open>\<^verbatim>\<open>x || ''\<close> for a dataset attribute \<open>x\<close>, which is \<^verbatim>\<open>undefined\<close> when absent.\<close>

fun orEmpty :: "string option \<Rightarrow> string" where
  "orEmpty None = []"
| "orEmpty (Some s) = s"

text \<open>A dataset attribute inside a template literal: \<^verbatim>\<open>`${id}`\<close>.\<close>

fun template :: "string option \<Rightarrow> string" where
  "template None = ''undefined''"
| "template (Some s) = s"

text \<open>A boolean inside a template literal or appended to \<^verbatim>\<open>URLSearchParams\<close>.\<close>

definition boolString :: "bool \<Rightarrow> string" where
  "boolString b = (if b then ''true'' else ''false'')"

text \<open>The UTF-16 code units of a string.\<close>

definition codeUnits :: "string \<Rightarrow> nat list" where
  "codeUnits s = map of_char s"

text \<open>
  Percent-encoding.  A character is sent as its UTF-8 bytes: one byte below 128, two bytes
  from 128 to 255.
\<close>

definition hexDigit :: "nat \<Rightarrow> char" where
  "hexDigit n = ''0123456789ABCDEF'' ! (n mod 16)"

definition percentByte :: "nat \<Rightarrow> string" where
  "percentByte n = [CHR ''%'', hexDigit (n div 16), hexDigit n]"

definition utf8 :: "char \<Rightarrow> nat list" where
  "utf8 c = (let n = (of_char c :: nat) in if n < 128 then [n] else [192 + n div 64, 128 + n mod 64])"

definition alphanumeric :: string where
  "alphanumeric = ''ABCDEFGHIJKLMNOPQRSTUVWXYZabcdefghijklmnopqrstuvwxyz0123456789''"

text \<open>\<^verbatim>\<open>encodeURIComponent\<close>: letters, digits and \<^verbatim>\<open>- _ . ! ~ * ' ( )\<close> stay.\<close>

definition encodeURIComponent :: "string \<Rightarrow> string" where
  "encodeURIComponent s =
     concat (map (\<lambda>c. if c \<in> set (alphanumeric @ ''-_.!~*()'' @ [CHR 0x27]) then [c]
                       else concat (map percentByte (utf8 c))) s)"

text \<open>
  \<^verbatim>\<open>URLSearchParams.prototype.toString\<close>: letters, digits and \<^verbatim>\<open>* - . _\<close> stay, a space
  becomes \<^verbatim>\<open>+\<close>, pairs are joined by \<^verbatim>\<open>&\<close>.
\<close>

definition formEncode :: "string \<Rightarrow> string" where
  "formEncode s =
     concat (map (\<lambda>c. if c = CHR '' '' then ''+''
                       else if c \<in> set (alphanumeric @ ''*-._'') then [c]
                       else concat (map percentByte (utf8 c))) s)"

fun paramsToString :: "(string \<times> string) list \<Rightarrow> string" where
  "paramsToString [] = []"
| "paramsToString [(k, v)] = formEncode k @ ''='' @ formEncode v"
| "paramsToString ((k, v) # kvs) = formEncode k @ ''='' @ formEncode v @ ''&'' @ paramsToString kvs"

section \<open>The page\<close>

text \<open>
  A table row (\<^verbatim>\<open>tbody tr\<close>): its \<^verbatim>\<open>data-*\<close> attributes (absent ones are \<open>None\<close>), its
  inline \<^verbatim>\<open>style.display\<close>, whether its class list has \<^verbatim>\<open>editing\<close>, the \<^verbatim>\<open>innerHTML\<close>
  of each of its children, the expando \<^verbatim>\<open>_originalValues\<close>, and the checked state of its
  \<^verbatim>\<open>.gift-toggle\<close> element when it has one.  \<open>cells\<close> holds what \<^verbatim>\<open>innerHTML\<close>
  reads for each child.  Assigning a string to \<^verbatim>\<open>innerHTML\<close> makes the browser parse
  it, and reading \<^verbatim>\<open>innerHTML\<close> serialises the result, which need not be the string
  assigned; what is read back after an assignment is the parameter \<open>reparse\<close> of the
  functions below.
\<close>

record row =
  data_id :: "string option"
  data_title :: "string option"
  data_authors :: "string option"
  data_tags :: "string option"
  data_live :: "string option"
  data_isbn :: "string option"
  data_giftFrom :: "string option"
  display :: string
  editing :: bool
  cells :: "string list"
  originalValues :: "string list option"
  giftToggle :: "bool option"

text \<open>The two ways the scanner is started: without a callback, or to mark a book read.\<close>

datatype scanMode = DefaultMode | MarkReadMode

text \<open>What the script chains to the promise of each \<^verbatim>\<open>fetch\<close>.\<close>

datatype continuation =
    ReadByIsbnDone
  | LiveToggleDone nat bool
  | MarkReadDone
  | SaveDone

record request =
  url :: string
  httpMethod :: string
  headers :: "(string \<times> string) list"
  body :: "string option"

text \<open>
  What the script does to the world outside its own variables and the elements below, in
  the order it does it.
\<close>

datatype effect =
    Fetch request continuation
  | ScannerStart scanMode
  | ScannerStop
  | ScannerClear
  | SetTimeout nat
  | Alert "nat list"
  | ConsoleError string
  | Reload

text \<open>
  The document and the variables of the script.  Elements the script tests before use are
  options; the others are taken to be on the page.  \<open>rows\<close> is
  \<^verbatim>\<open>document.querySelectorAll('tbody tr')\<close>; a row is referred to by its position, which
  the script never changes.  \<open>errorMessageDiv\<close> holds the element's text and display.
\<close>

record page =
  rows :: "row list"
  searchInput :: "string option"
  liveOnlyCheckbox :: "bool option"
  giftCheckbox :: "bool option"
  giftFromGroup :: string
  giftFromInput :: "string option"
  isbnInput :: string
  scannerContainer :: string
  errorMessageDiv :: "(nat list \<times> string) option"
  html5QrCode :: bool
  editingRow :: "nat option"
  onLine :: bool
  libraryLoaded :: bool
  effects :: "effect list"

definition perform :: "effect \<Rightarrow> page \<Rightarrow> page" where
  "perform e p = p\<lparr>effects := effects p @ [e]\<rparr>"

text \<open>The requests sent so far.\<close>

definition fetches :: "page \<Rightarrow> request list" where
  "fetches p = concat (map (\<lambda>e. case e of Fetch r _ \<Rightarrow> [r] | _ \<Rightarrow> []) (effects p))"

text \<open>\<^verbatim>\<open>showError\<close>, and the callback of its timer.\<close>

definition showError :: "nat list \<Rightarrow> page \<Rightarrow> page" where
  "showError msg p =
     (case errorMessageDiv p of
        Some _ \<Rightarrow> perform (SetTimeout 6000) (p\<lparr>errorMessageDiv := Some (msg, ''block'')\<rparr>)
      | None \<Rightarrow> perform (Alert msg) p)"

definition hideError :: "page \<Rightarrow> page" where
  "hideError p = p\<lparr>errorMessageDiv := map_option (\<lambda>_. ([], ''none'')) (errorMessageDiv p)\<rparr>"

subsection \<open>Filtering\<close>

text \<open>The body of the \<^verbatim>\<open>forEach\<close> in \<^verbatim>\<open>filterRows\<close>.\<close>

definition filterRow :: "string \<Rightarrow> bool \<Rightarrow> row \<Rightarrow> row" where
  "filterRow query liveOnly r =
     (let title = toLowerCase (orEmpty (data_title r));
          authors = toLowerCase (orEmpty (data_authors r));
          tags = toLowerCase (orEmpty (data_tags r));
          isLive = (toLowerCase (orEmpty (data_live r)) = ''true'');
          matchesQuery = (query = [] \<or> string_includes title query \<or> string_includes authors query
                          \<or> string_includes tags query);
          passesLiveFilter = (\<not> liveOnly \<or> isLive)
      in if matchesQuery \<and> passesLiveFilter then r\<lparr>display := []\<rparr>
         else r\<lparr>display := ''none''\<rparr>)"

definition filterRows :: "page \<Rightarrow> page" where
  "filterRows p =
     (let query = (case searchInput p of Some v \<Rightarrow> toLowerCase (trim v) | None \<Rightarrow> []);
          liveOnly = (case liveOnlyCheckbox p of Some c \<Rightarrow> c | None \<Rightarrow> False)
      in p\<lparr>rows := map (filterRow query liveOnly) (rows p)\<rparr>)"

subsection \<open>Inline editing\<close>

text \<open>
  A script function either returns or throws; what it changed before throwing stays
  changed.
\<close>

datatype completion = Normal | Thrown

text \<open>
  The assignments \<^verbatim>\<open>cells[idx].innerHTML = html\<close> in the order given.  After an
  assignment the cell reads \<open>reparse html\<close>.  Where the row has no child \<open>idx\<close>,
  \<^verbatim>\<open>cells[idx]\<close> is \<^verbatim>\<open>undefined\<close> and the assignment throws a \<^verbatim>\<open>TypeError\<close>; the
  assignments after it are not made.
\<close>

fun setInnerHTMLs ::
  "(string \<Rightarrow> string) \<Rightarrow> (nat \<times> string) list \<Rightarrow> string list \<Rightarrow> completion \<times> string list" where
  "setInnerHTMLs reparse [] cs = (Normal, cs)"
| "setInnerHTMLs reparse ((idx, html) # rest) cs =
     (if idx < length cs then setInnerHTMLs reparse rest (cs[idx := reparse html])
      else (Thrown, cs))"

text \<open>
  \<^verbatim>\<open>cancelEditing(row)\<close>, for the row at position \<open>i\<close>:
  \<^verbatim>\<open>originalValues.forEach((html, idx) => { cells[idx].innerHTML = html; })\<close>, then the
  class is removed and \<^verbatim>\<open>editingRow\<close> set to \<^verbatim>\<open>null\<close>.
\<close>

definition cancelEditing ::
  "(string \<Rightarrow> string) \<Rightarrow> nat \<Rightarrow> page \<Rightarrow> completion \<times> page" where
  "cancelEditing reparse i p =
     (let row = rows p ! i
      in if \<not> editing row then (Normal, p)
         else
           let values = (case originalValues row of Some v \<Rightarrow> v | None \<Rightarrow> []);
               (c, cs) = setInnerHTMLs reparse (zip [0..<length values] values) (cells row)
           in case c of
                Thrown \<Rightarrow> (Thrown, p\<lparr>rows := (rows p)[i := row\<lparr>cells := cs\<rparr>]\<rparr>)
              | Normal \<Rightarrow>
                  (Normal, p\<lparr>rows := (rows p)[i := row\<lparr>editing := False, cells := cs\<rparr>],
                             editingRow := None\<rparr>))"

text \<open>
  \<^verbatim>\<open>d || cells[k].textContent\<close>: the dataset value when it is a non-empty string, else the
  text of cell \<open>k\<close>; \<open>None\<close> when that cell is missing (a \<^verbatim>\<open>TypeError\<close>).  The text of a
  cell is what the browser computes from its markup; it is the parameter \<open>textContent\<close>.
\<close>

definition orTextContent ::
  "(string \<Rightarrow> string) \<Rightarrow> string option \<Rightarrow> string list \<Rightarrow> nat \<Rightarrow> string option" where
  "orTextContent textContent d cs k =
     (if orEmpty d \<noteq> [] then Some (orEmpty d)
      else if k < length cs then Some (textContent (cs ! k))
      else None)"

text \<open>
  The markup \<^verbatim>\<open>enableEditing\<close> assigns to the cells, and what the two buttons it creates
  and appends read as.
\<close>

definition textInput :: "string \<Rightarrow> string \<Rightarrow> string" where
  \<open>textInput cls v =
     ''<input type="text" class="'' @ cls @ ''" value="'' @ escapeHtml v @ ''">''\<close>

definition giftCheckboxInput :: "bool \<Rightarrow> string" where
  \<open>giftCheckboxInput isGift =
     ''<input type="checkbox" class="edit-gift-toggle" '' @ (if isGift then ''checked'' else [])
       @ ''>''\<close>

definition saveCancelButtons :: string where
  \<open>saveCancelButtons =
     ''<button class="save-edit">Save</button><button class="cancel-edit">Cancel</button>''\<close>

text \<open>
  \<^verbatim>\<open>enableEditing\<close> from \<^verbatim>\<open>row.classList.add('editing')\<close> on, as a function of the row:
  the class, the saved markup, the four reads, the six assignments to \<^verbatim>\<open>innerHTML\<close>
  (the last one of the empty string), and the two buttons appended to the last cell.
\<close>

definition startEditing ::
  "(string \<Rightarrow> string) \<Rightarrow> (string \<Rightarrow> string) \<Rightarrow> row \<Rightarrow> completion \<times> row" where
  "startEditing textContent reparse row0 =
     (let row = row0\<lparr>editing := True, originalValues := Some (cells row0)\<rparr>;
          cs = cells row
      in case orTextContent textContent (data_title row) cs 0 of
           None \<Rightarrow> (Thrown, row)
         | Some title \<Rightarrow>
      (case orTextContent textContent (data_authors row) cs 2 of
           None \<Rightarrow> (Thrown, row)
         | Some authors \<Rightarrow>
      (case orTextContent textContent (data_tags row) cs 3 of
           None \<Rightarrow> (Thrown, row)
         | Some tags \<Rightarrow>
      (case orTextContent textContent (data_giftFrom row) cs 5 of
           None \<Rightarrow> (Thrown, row)
         | Some giftFrom \<Rightarrow>
      (let isGift = (case giftToggle row of Some checked \<Rightarrow> checked | None \<Rightarrow> False);
           (c, cs') = setInnerHTMLs reparse
              [(0, textInput ''edit-title'' title),
               (2, textInput ''edit-authors'' authors),
               (3, textInput ''edit-tags'' tags),
               (5, textInput ''edit-gift-from'' giftFrom),
               (6, giftCheckboxInput isGift),
               (8, [])] cs
       in case c of
            Thrown \<Rightarrow> (Thrown, row\<lparr>cells := cs'\<rparr>)
          | Normal \<Rightarrow> (Normal, row\<lparr>cells := cs'[8 := cs' ! 8 @ saveCancelButtons]\<rparr>))))))"

text \<open>\<^verbatim>\<open>enableEditing(row)\<close>, for the row at position \<open>i\<close>.\<close>

definition enableEditing ::
  "(string \<Rightarrow> string) \<Rightarrow> (string \<Rightarrow> string) \<Rightarrow> nat \<Rightarrow> page \<Rightarrow> completion \<times> page" where
  "enableEditing textContent reparse i p =
     (let (c, p1) = (case editingRow p of
                       Some j \<Rightarrow> if j \<noteq> i then cancelEditing reparse j p else (Normal, p)
                     | None \<Rightarrow> (Normal, p))
      in case c of
           Thrown \<Rightarrow> (Thrown, p1)
         | Normal \<Rightarrow>
             if editing (rows p1 ! i) then (Normal, p1)
             else
               let (c', row) = startEditing textContent reparse (rows p1 ! i)
               in (c', p1\<lparr>rows := (rows p1)[i := row], editingRow := Some i\<rparr>))"

text \<open>
  The invariant of the editing state: \<^verbatim>\<open>editingRow\<close> is \<^verbatim>\<open>null\<close> or a row of the table,
  and a row that has the class \<^verbatim>\<open>editing\<close> is the row \<^verbatim>\<open>editingRow\<close> refers to.
\<close>

definition editingInvariant :: "page \<Rightarrow> bool" where
  "editingInvariant p =
     ((case editingRow p of Some j \<Rightarrow> j < length (rows p) | None \<Rightarrow> True) \<and>
      (\<forall>k < length (rows p). editing (rows p ! k) \<longrightarrow> editingRow p = Some k))"

subsection \<open>Scanner\<close>

text \<open>
  \<^verbatim>\<open>stopScanner\<close> asks the scanner to stop when the variable \<^verbatim>\<open>html5QrCode\<close> is set;
  \<open>stopSettled\<close> is what it chains to the promise of \<^verbatim>\<open>html5QrCode.stop()\<close>.
\<close>

definition stopScanner :: "page \<Rightarrow> page" where
  "stopScanner p =
     (if html5QrCode p then perform ScannerStop p else p\<lparr>scannerContainer := ''none''\<rparr>)"

definition stopSettled :: "bool \<Rightarrow> page \<Rightarrow> page" where
  "stopSettled fulfilled p =
     (if fulfilled then (perform ScannerClear p)\<lparr>scannerContainer := ''none''\<rparr>
      else perform (ConsoleError ''Error stopping scanner'') p)"

text \<open>
  \<^verbatim>\<open>startScanner(onDecoded)\<close>; the mode says whether a callback was passed.  \<open>startFailed\<close>
  is the \<^verbatim>\<open>catch\<close> on the promise of \<^verbatim>\<open>html5QrCode.start\<close>.
\<close>

definition startScanner :: "scanMode \<Rightarrow> page \<Rightarrow> page" where
  "startScanner mode p =
     (if \<not> onLine p then
        showError
          (codeUnits ''You appear to be offline. Barcode scanning requires an internet connection to load the scanning library.'') p
      else if \<not> libraryLoaded p then
        showError
          (codeUnits ''Barcode scanner library failed to load. Please check your internet connection or try again later.'') p
      else perform (ScannerStart mode) (p\<lparr>scannerContainer := ''block'', html5QrCode := True\<rparr>))"

definition startFailed :: "page \<Rightarrow> page" where
  "startFailed p =
     showError
          (codeUnits ''Unable to access your camera. Please ensure a camera is available and that you have granted permission.'')
       ((perform (ConsoleError ''Error starting scanner'') p)\<lparr>scannerContainer := ''none''\<rparr>)"

subsection \<open>Requests\<close>

definition fetch :: "request \<Rightarrow> continuation \<Rightarrow> page \<Rightarrow> page" where
  "fetch r k p = perform (Fetch r k) p"

definition formHeaders :: "(string \<times> string) list" where
  "formHeaders = [(''Content-Type'', ''application/x-www-form-urlencoded'')]"

text \<open>The request both scan modes send: \<^verbatim>\<open>fetch('/read_by_isbn', ...)\<close>.\<close>

definition readByIsbn :: "string \<Rightarrow> page \<Rightarrow> page" where
  "readByIsbn isbn p =
     fetch \<lparr>url = ''/read_by_isbn'', httpMethod = ''POST'', headers = formHeaders,
            body = Some (''isbn='' @ encodeURIComponent isbn)\<rparr> ReadByIsbnDone p"

text \<open>The test inside the \<^verbatim>\<open>forEach\<close> of the default scan callback.\<close>

definition isbnMatches :: "string \<Rightarrow> row \<Rightarrow> bool" where
  "isbnMatches scanned r =
     (let rowIsbn = normalizeIsbn (JString (orEmpty (data_isbn r)))
      in rowIsbn \<noteq> [] \<and> scanned \<noteq> [] \<and> rowIsbn = scanned)"

text \<open>
  The message of the default scan callback when no row matches; 8212 is the em dash
  (U+2014).
\<close>

definition notFoundMessage :: "nat list" where
  "notFoundMessage =
     codeUnits ''Scanned ISBN not found in your library '' @ [8212]
       @ codeUnits '' filled Add form.''"

text \<open>
  The scanner's success callback when \<^verbatim>\<open>startScanner\<close> was called without a callback:
  the loop leaves in \<^verbatim>\<open>matched\<close> the last row that matches.
\<close>

definition defaultDecoded :: "string \<Rightarrow> page \<Rightarrow> page" where
  "defaultDecoded decodedText p =
     (let scanned = normalizeIsbn (JString decodedText);
          matched = foldl (\<lambda>m r. if isbnMatches scanned r then Some r else m) None (rows p)
      in case matched of
           Some r \<Rightarrow> readByIsbn (template (data_isbn r)) (stopScanner p)
         | None \<Rightarrow> showError notFoundMessage (stopScanner (p\<lparr>isbnInput := decodedText\<rparr>)))"

text \<open>The callback the \<^verbatim>\<open>.scan-mark-read\<close> buttons pass to \<^verbatim>\<open>startScanner\<close>.\<close>

definition markReadDecoded :: "string \<Rightarrow> page \<Rightarrow> page" where
  "markReadDecoded decodedText p = readByIsbn decodedText (stopScanner p)"

definition decoded :: "scanMode \<Rightarrow> string \<Rightarrow> page \<Rightarrow> page" where
  "decoded mode decodedText p =
     (case mode of
        MarkReadMode \<Rightarrow> markReadDecoded decodedText p
      | DefaultMode \<Rightarrow> defaultDecoded decodedText p)"

text \<open>
  How a \<^verbatim>\<open>fetch\<close> ends: the promise is rejected (no response), or it resolves to a response
  with its \<^verbatim>\<open>ok\<close> flag and its text (\<open>None\<close> when reading the text fails).
\<close>

datatype response = Rejected | Resolved bool "string option"

text \<open>What the script chains to \<^verbatim>\<open>fetch('/read_by_isbn', ...)\<close>.\<close>

definition readByIsbnSettled :: "response \<Rightarrow> page \<Rightarrow> page" where
  "readByIsbnSettled resp p =
     (let caught = showError (codeUnits ''Network error while marking read.'')
                     (perform (ConsoleError ''Error marking read by ISBN'') p)
      in case resp of
           Rejected \<Rightarrow> caught
         | Resolved ok txt \<Rightarrow>
             if \<not> ok then
               (case txt of
                  Some t \<Rightarrow> showError (codeUnits (''Failed to mark as read: '' @ t)) p
                | None \<Rightarrow> caught)
             else perform Reload p)"

text \<open>
  The \<^verbatim>\<open>change\<close> handler of a \<^verbatim>\<open>.live-toggle\<close> checkbox in row \<open>i\<close>, and what it chains
  to its \<^verbatim>\<open>fetch\<close>: a \<^verbatim>\<open>then\<close> that does not look at the response, and no \<^verbatim>\<open>catch\<close>.
\<close>

definition liveToggleChanged :: "nat \<Rightarrow> bool \<Rightarrow> page \<Rightarrow> page" where
  "liveToggleChanged i newState p =
     fetch \<lparr>url = ''/update/'' @ template (data_id (rows p ! i)), httpMethod = ''POST'',
            headers = formHeaders, body = Some (''is_live='' @ boolString newState)\<rparr>
       (LiveToggleDone i newState) p"

definition liveToggleSettled :: "nat \<Rightarrow> bool \<Rightarrow> response \<Rightarrow> page \<Rightarrow> page" where
  "liveToggleSettled i newState resp p =
     (case resp of
        Rejected \<Rightarrow> p
      | Resolved ok txt \<Rightarrow>
          filterRows
            (p\<lparr>rows := (rows p)[i := (rows p ! i)\<lparr>data_live :=
                 Some (if newState then ''true'' else ''false'')\<rparr>]\<rparr>))"

text \<open>The \<^verbatim>\<open>click\<close> handler of a \<^verbatim>\<open>.mark-read\<close> button in row \<open>i\<close>.\<close>

definition markReadClicked :: "nat \<Rightarrow> page \<Rightarrow> page" where
  "markReadClicked i p =
     fetch \<lparr>url = ''/read/'' @ template (data_id (rows p ! i)), httpMethod = ''POST'',
            headers = [], body = None\<rparr> MarkReadDone p"

definition markReadSettled :: "response \<Rightarrow> page \<Rightarrow> page" where
  "markReadSettled resp p = (case resp of Rejected \<Rightarrow> p | Resolved ok txt \<Rightarrow> perform Reload p)"

text \<open>
  The \<^verbatim>\<open>click\<close> handler of the Save button of row \<open>i\<close>; the arguments are the values of
  the row's five inputs at the time of the click.
\<close>

definition saveClicked ::
  "nat \<Rightarrow> string \<Rightarrow> string \<Rightarrow> string \<Rightarrow> string \<Rightarrow> bool \<Rightarrow> page \<Rightarrow> page" where
  "saveClicked i title authors tags giftFrom isGift p =
     fetch \<lparr>url = ''/update/'' @ template (data_id (rows p ! i)), httpMethod = ''POST'',
            headers = formHeaders,
            body = Some (paramsToString
              [(''title'', trim title), (''authors'', trim authors), (''tags'', trim tags),
               (''gift_from'', trim giftFrom), (''is_gift'', boolString isGift)])\<rparr>
       SaveDone p"

definition saveSettled :: "response \<Rightarrow> page \<Rightarrow> page" where
  "saveSettled resp p =
     (case resp of
        Rejected \<Rightarrow> showError (codeUnits ''An error occurred while saving changes.'') p
      | Resolved ok txt \<Rightarrow>
          if \<not> ok then showError (codeUnits ''Failed to save changes.'') p else perform Reload p)"

fun settle :: "continuation \<Rightarrow> response \<Rightarrow> page \<Rightarrow> page" where
  "settle ReadByIsbnDone resp p = readByIsbnSettled resp p"
| "settle (LiveToggleDone i newState) resp p = liveToggleSettled i newState resp p"
| "settle MarkReadDone resp p = markReadSettled resp p"
| "settle SaveDone resp p = saveSettled resp p"

subsection \<open>The script as a whole\<close>

text \<open>\<^verbatim>\<open>toggleGiftFromVisibility\<close>; it exists only when the page has the gift checkbox.\<close>

definition toggleGiftFromVisibility :: "page \<Rightarrow> page" where
  "toggleGiftFromVisibility p =
     (case giftCheckbox p of
        None \<Rightarrow> p
      | Some checked \<Rightarrow>
          if checked then p\<lparr>giftFromGroup := ''block''\<rparr>
          else p\<lparr>giftFromGroup := ''none'',
                 giftFromInput := map_option (\<lambda>_. []) (giftFromInput p)\<rparr>)"

text \<open>What the \<^verbatim>\<open>DOMContentLoaded\<close> handler does besides attaching listeners.\<close>

definition loaded :: "page \<Rightarrow> page" where
  "loaded p = filterRows (toggleGiftFromVisibility p)"

text \<open>
  Everything that can make the script run: the user's actions on the elements it listens
  to, the scanner's callbacks, the settling of a request (by its position among the
  effects), and the timer of \<^verbatim>\<open>showError\<close>.  An event on a row names the row's position;
  a change event carries the new state of its control.
\<close>

datatype event =
    StartScanClicked
  | StopScanClicked
  | ScanMarkReadClicked
  | ScannerStartFailed
  | ScannerStopSettled bool
  | Decoded scanMode string
  | GiftChanged bool
  | SearchTyped string
  | LiveOnlyChanged bool
  | LiveToggleChanged nat bool
  | MarkReadClicked nat
  | EditClicked nat
  | SaveClicked nat string string string string bool
  | CancelClicked nat
  | FetchSettled nat response
  | ErrorTimerFired

text \<open>
  The listener that runs for an event.  A listener that throws leaves the page as it was
  when it threw.  A handler of a row runs only for a row of the table; beyond that every
  listener may run at any time, which is more than the page lets the user do.
\<close>

fun handle ::
  "(string \<Rightarrow> string) \<Rightarrow> (string \<Rightarrow> string) \<Rightarrow> event \<Rightarrow> page \<Rightarrow> page" where
  "handle textContent reparse StartScanClicked p = startScanner DefaultMode p"
| "handle textContent reparse StopScanClicked p = stopScanner p"
| "handle textContent reparse ScanMarkReadClicked p = startScanner MarkReadMode p"
| "handle textContent reparse ScannerStartFailed p = startFailed p"
| "handle textContent reparse (ScannerStopSettled fulfilled) p = stopSettled fulfilled p"
| "handle textContent reparse (Decoded mode decodedText) p = decoded mode decodedText p"
| "handle textContent reparse (GiftChanged checked) p =
     (case giftCheckbox p of
        None \<Rightarrow> p
      | Some _ \<Rightarrow> toggleGiftFromVisibility (p\<lparr>giftCheckbox := Some checked\<rparr>))"
| "handle textContent reparse (SearchTyped v) p =
     (case searchInput p of None \<Rightarrow> p | Some _ \<Rightarrow> filterRows (p\<lparr>searchInput := Some v\<rparr>))"
| "handle textContent reparse (LiveOnlyChanged checked) p =
     (case liveOnlyCheckbox p of
        None \<Rightarrow> p
      | Some _ \<Rightarrow> filterRows (p\<lparr>liveOnlyCheckbox := Some checked\<rparr>))"
| "handle textContent reparse (LiveToggleChanged i newState) p =
     (if i < length (rows p) then liveToggleChanged i newState p else p)"
| "handle textContent reparse (MarkReadClicked i) p =
     (if i < length (rows p) then markReadClicked i p else p)"
| "handle textContent reparse (EditClicked i) p =
     (if i < length (rows p) then snd (enableEditing textContent reparse i p) else p)"
| "handle textContent reparse (SaveClicked i title authors tags giftFrom isGift) p =
     (if i < length (rows p) then saveClicked i title authors tags giftFrom isGift p else p)"
| "handle textContent reparse (CancelClicked i) p =
     (if i < length (rows p) then snd (cancelEditing reparse i p) else p)"
| "handle textContent reparse (FetchSettled k resp) p =
     (if k < length (effects p)
      then (case effects p ! k of Fetch r c \<Rightarrow> settle c resp p | _ \<Rightarrow> p)
      else p)"
| "handle textContent reparse ErrorTimerFired p = hideError p"

fun run ::
  "(string \<Rightarrow> string) \<Rightarrow> (string \<Rightarrow> string) \<Rightarrow> event list \<Rightarrow> page \<Rightarrow> page" where
  "run textContent reparse [] p = p"
| "run textContent reparse (e # es) p = run textContent reparse es (handle textContent reparse e p)"

text \<open>
  A request to one of the three endpoints \<^verbatim>\<open>/update/:id\<close>, \<^verbatim>\<open>/read/:id\<close> and
  \<^verbatim>\<open>/read_by_isbn\<close>, with the method \<^verbatim>\<open>POST\<close>.
\<close>

definition postsToEndpoint :: "request \<Rightarrow> bool" where
  "postsToEndpoint r =
     (httpMethod r = ''POST'' \<and>
      (prefix ''/update/'' (url r) \<or> prefix ''/read/'' (url r) \<or> url r = ''/read_by_isbn''))"

text \<open>
  A failed request: the promise of \<^verbatim>\<open>fetch\<close> is rejected, or the response is not
  \<^verbatim>\<open>ok\<close>.
\<close>

definition failure :: "response \<Rightarrow> bool" where
  "failure resp = (case resp of Rejected \<Rightarrow> True | Resolved ok t \<Rightarrow> \<not> ok)"

text \<open>The effects that show a message, log one, or reload the page.\<close>

fun messageOrReload :: "effect \<Rightarrow> bool" where
  "messageOrReload (SetTimeout n) = True"
| "messageOrReload (Alert msg) = True"
| "messageOrReload (ConsoleError msg) = True"
| "messageOrReload Reload = True"
| "messageOrReload e = False"

text \<open>
  From \<open>p\<close> to \<open>p'\<close> nothing happened but messages and reloads: only the message
  element and the effects differ, and the new effects are of that kind.
\<close>

definition onlyMessageOrReload :: "page \<Rightarrow> page \<Rightarrow> bool" where
  "onlyMessageOrReload p p' =
     (p' = p\<lparr>errorMessageDiv := errorMessageDiv p', effects := effects p'\<rparr> \<and>
      take (length (effects p)) (effects p') = effects p \<and>
      list_all messageOrReload (drop (length (effects p)) (effects p')))"


text \<open>The part of the page the invariant speaks of.\<close>

definition editState :: "page \<Rightarrow> nat option \<times> bool list" where
  "editState p = (editingRow p, map editing (rows p))"

subsection \<open>A small library\<close>

text \<open>Two books and a page showing them, for evaluating the script.\<close>

definition gruffalo :: row where
  "gruffalo =
     \<lparr>data_id = Some ''7'', data_title = Some ''The Gruffalo'',
      data_authors = Some ''Julia Donaldson'', data_tags = Some ''rhyme, forest'',
      data_live = Some ''true'', data_isbn = Some ''978-1-5098-0475-5'',
      data_giftFrom = None, display = [], editing = False,
      cells = [''The Gruffalo'', ''978-1-5098-0475-5'', ''Julia Donaldson'', ''rhyme, forest'',
               ''2025-01-03'', [], ''no'', ''yes'', ''Edit''],
      originalValues = None, giftToggle = Some False\<rparr>"

definition goodnightMoon :: row where
  "goodnightMoon =
     \<lparr>data_id = Some ''8'', data_title = Some ''Goodnight Moon'',
      data_authors = Some ''Margaret Wise Brown'', data_tags = Some ''bedtime'',
      data_live = Some ''false'', data_isbn = Some ''9780060775858'',
      data_giftFrom = Some ''Gran'', display = [], editing = False,
      cells = [''Goodnight Moon'', ''9780060775858'', ''Margaret Wise Brown'', ''bedtime'',
               [], ''Gran'', ''yes'', ''no'', ''Edit''],
      originalValues = None, giftToggle = Some True\<rparr>"



definition library :: page where
  "library =
     \<lparr>rows = [gruffalo, goodnightMoon], searchInput = Some '' GRUFF '',
      liveOnlyCheckbox = Some True, giftCheckbox = Some False, giftFromGroup = ''none'',
      giftFromInput = Some [], isbnInput = [], scannerContainer = ''none'',
      errorMessageDiv = Some ([], ''none''), html5QrCode = True, editingRow = None,
      onLine = True, libraryLoaded = True, effects = []\<rparr>"


section \<open>Properties of the string helpers\<close>

lemma filter_isDigit_idem: "filter isDigit (filter isDigit s) = filter isDigit s"
  by simp

text \<open>
  Claim C8.  \<^verbatim>\<open>normalizeIsbn\<close> returns, for every string and for \<^verbatim>\<open>null\<close> and
  \<^verbatim>\<open>undefined\<close>, a string of decimal digits only; normalising its result again changes
  nothing; and \<^verbatim>\<open>null\<close>, \<^verbatim>\<open>undefined\<close> and the empty string give the empty string.
\<close>

theorem normalizeIsbn_digits_idempotent:
  "(\<forall>c \<in> set (normalizeIsbn s). isDigit c) \<and>
   normalizeIsbn (JString (normalizeIsbn s)) = normalizeIsbn s \<and>
   normalizeIsbn JNull = [] \<and> normalizeIsbn JUndefined = [] \<and> normalizeIsbn (JString []) = []"
  by (simp add: normalizeIsbn_def)

theorem normalizeIsbn_digits_idempotent_witness:
  "normalizeIsbn (JString ''978-0 13x4'') = ''9780134'' \<and>
   list_all isDigit (normalizeIsbn (JString ''978-0 13x4'')) \<and>
   normalizeIsbn (JString ''9780134'') = ''9780134''"
  using normalizeIsbn_digits_idempotent [of "JString ''978-0 13x4''"]
  by (simp add: normalizeIsbn_def isDigit_def)

subsection \<open>\<^verbatim>\<open>escapeHtml\<close>\<close>

lemma replaceAll_Nil: "replaceAll c r [] = []"
  by (simp add: replaceAll_def)

lemma replaceAll_Cons:
  "replaceAll c r (x # xs) = (if x = c then r else [x]) @ replaceAll c r xs"
  by (simp add: replaceAll_def)

lemma replaceAll_append:
  "replaceAll c r (xs @ ys) = replaceAll c r xs @ replaceAll c r ys"
  by (simp add: replaceAll_def)

lemma escapeHtml_Nil: "escapeHtml [] = []"
  by (simp add: escapeHtml_def replaceAll_Nil)

lemma escapeHtml_Cons: "escapeHtml (c # cs) = escapeChar c @ escapeHtml cs"
  by (simp add: escapeHtml_def replaceAll_Cons replaceAll_append replaceAll_Nil escapeChar_def)

lemma escapeChar_no_markup:
  "x \<in> set (escapeChar c) \<Longrightarrow> x \<notin> {CHR ''<'', CHR ''>'', CHR 0x22, CHR 0x27}"
  by (auto simp: escapeChar_def split: if_splits)

lemma escapeHtml_no_markup:
  "x \<in> set (escapeHtml s) \<Longrightarrow> x \<notin> {CHR ''<'', CHR ''>'', CHR 0x22, CHR 0x27}"
proof (induction s)
  case Nil
  then show ?case by (simp add: escapeHtml_Nil)
next
  case (Cons c cs)
  from Cons.prems have "x \<in> set (escapeChar c) \<or> x \<in> set (escapeHtml cs)"
    by (simp add: escapeHtml_Cons)
  then show ?case
    using escapeChar_no_markup [of x c] Cons.IH by blast
qed

lemma decodeEntities_escapeChar:
  "decodeEntities (escapeChar c @ rest) = c # decodeEntities rest"
  by (simp add: escapeChar_def entities_def)

lemma decodeEntities_escapeHtml: "decodeEntities (escapeHtml s) = s"
  by (induction s) (simp_all add: escapeHtml_Nil escapeHtml_Cons decodeEntities_escapeChar)

lemma startsEntity_Suc: "startsEntity (c # cs) (Suc i) = startsEntity cs i"
  by (simp add: startsEntity_def)

lemma ampersandsStartEntities_nth:
  "ampersandsStartEntities s \<Longrightarrow> i < length s \<Longrightarrow> s ! i = CHR ''&'' \<Longrightarrow> startsEntity s i"
proof (induction s arbitrary: i)
  case Nil
  then show ?case by simp
next
  case (Cons c cs)
  show ?case
  proof (cases i)
    case 0
    with Cons.prems show ?thesis by simp
  next
    case (Suc j)
    with Cons.prems have "startsEntity cs j"
      by (intro Cons.IH) simp_all
    with Suc show ?thesis by (simp add: startsEntity_Suc)
  qed
qed

lemma ampersandsStartEntities_escapeChar:
  "ampersandsStartEntities (escapeChar c @ rest) = ampersandsStartEntities rest"
  by (simp add: escapeChar_def startsEntity_def entities_def)

lemma ampersandsStartEntities_escapeHtml: "ampersandsStartEntities (escapeHtml s)"
  by (induction s)
    (simp_all add: escapeHtml_Nil escapeHtml_Cons ampersandsStartEntities_escapeChar)

lemma attributeValue_escapeHtml:
  "attributeValue (escapeHtml s @ CHR 0x22 # rest) = escapeHtml s"
proof -
  have "\<forall>x \<in> set (escapeHtml s). x \<noteq> CHR 0x22"
    using escapeHtml_no_markup by blast
  then show ?thesis
    by (simp add: attributeValue_def)
qed

text \<open>
  Claim C10.  For every string, the output of \<^verbatim>\<open>escapeHtml\<close> contains none of the
  characters \<^verbatim>\<open><\<close>, \<^verbatim>\<open>>\<close>, double quote and single quote, and every ampersand in
  it starts one of the five entities; decoding the five entities gives the input back;
  and when the output is followed by the closing double quote of an attribute, the
  attribute's value is the whole output, so the output cannot end the attribute early.
\<close>

theorem escapeHtml_safe:
  "(\<forall>x \<in> set (escapeHtml s). x \<notin> {CHR ''<'', CHR ''>'', CHR 0x22, CHR 0x27}) \<and>
   (\<forall>i < length (escapeHtml s).
      escapeHtml s ! i = CHR ''&'' \<longrightarrow> startsEntity (escapeHtml s) i) \<and>
   decodeEntities (escapeHtml s) = s \<and>
   attributeValue (escapeHtml s @ CHR 0x22 # rest) = escapeHtml s"
  using escapeHtml_no_markup [of _ s]
    ampersandsStartEntities_nth [OF ampersandsStartEntities_escapeHtml, of _ s]
    decodeEntities_escapeHtml [of s] attributeValue_escapeHtml [of s rest]
  by blast

theorem escapeHtml_safe_witness:
  "escapeHtml [CHR ''a'', CHR ''&'', CHR 0x22, CHR ''<'', CHR 0x27, CHR ''>'']
     = ''a&amp;&quot;&lt;&#39;&gt;'' \<and>
   list_all (\<lambda>x. x \<notin> {CHR ''<'', CHR ''>'', CHR 0x22, CHR 0x27}) ''a&amp;&quot;&lt;&#39;&gt;'' \<and>
   startsEntity ''a&amp;&quot;&lt;&#39;&gt;'' 1 \<and>
   decodeEntities ''a&amp;&quot;&lt;&#39;&gt;''
     = [CHR ''a'', CHR ''&'', CHR 0x22, CHR ''<'', CHR 0x27, CHR ''>''] \<and>
   attributeValue (''a&amp;&quot;&lt;&#39;&gt;'' @ [CHR 0x22, CHR ''>''])
     = ''a&amp;&quot;&lt;&#39;&gt;''"
proof -
  let ?s = "[CHR ''a'', CHR ''&'', CHR 0x22, CHR ''<'', CHR 0x27, CHR ''>'']"
  have e: "escapeHtml ?s = ''a&amp;&quot;&lt;&#39;&gt;''"
    by (simp add: escapeHtml_def replaceAll_def)
  show ?thesis
    using escapeHtml_safe [of ?s "[CHR ''>'']"] unfolding e
    by (simp add: e)
qed

section \<open>Filtering\<close>

lemma string_includes_sublist: "string_includes s q = sublist q s"
  by (induction s) (simp_all add: sublist_Cons_right)

lemma filterRows_query:
  "(case searchInput p of Some v \<Rightarrow> toLowerCase (trim v) | None \<Rightarrow> [])
     = toLowerCase (trim (orEmpty (searchInput p)))"
  by (cases "searchInput p") (simp_all add: toLowerCase_def trim_def)

lemma filterRows_liveOnly:
  "(case liveOnlyCheckbox p of Some c \<Rightarrow> c | None \<Rightarrow> False) = (liveOnlyCheckbox p = Some True)"
  by (cases "liveOnlyCheckbox p") simp_all

lemma rows_filterRows:
  "rows (filterRows p) =
     map (filterRow (toLowerCase (trim (orEmpty (searchInput p)))) (liveOnlyCheckbox p = Some True))
       (rows p)"
  by (simp add: filterRows_def filterRows_query filterRows_liveOnly)

lemma filterRows_only_rows: "filterRows p = p\<lparr>rows := rows (filterRows p)\<rparr>"
  by (simp add: filterRows_def Let_def)

lemma filterRow_only_display: "(filterRow q lo r)\<lparr>display := d\<rparr> = r\<lparr>display := d\<rparr>"
  by (simp add: filterRow_def Let_def)

text \<open>
  Claim C1.  After \<^verbatim>\<open>filterRows\<close>, a row is displayed (its \<^verbatim>\<open>style.display\<close> is the
  empty string) exactly when the trimmed, lower-cased search text is empty or occurs in the
  row's lower-cased \<^verbatim>\<open>data-title\<close>, \<^verbatim>\<open>data-authors\<close> or \<^verbatim>\<open>data-tags\<close>, and the
  live-only box is unchecked or the row's lower-cased \<^verbatim>\<open>data-live\<close> is \<^verbatim>\<open>true\<close>;
  otherwise it is hidden (\<^verbatim>\<open>none\<close>).
\<close>

theorem filterRows_display:
  assumes "i < length (rows p)"
  shows "let q = toLowerCase (trim (orEmpty (searchInput p)));
             r = rows p ! i;
             shown = ((q = [] \<or> sublist q (toLowerCase (orEmpty (data_title r)))
                         \<or> sublist q (toLowerCase (orEmpty (data_authors r)))
                         \<or> sublist q (toLowerCase (orEmpty (data_tags r))))
                      \<and> (liveOnlyCheckbox p \<noteq> Some True
                         \<or> toLowerCase (orEmpty (data_live r)) = ''true''))
         in length (rows (filterRows p)) = length (rows p) \<and>
            display (rows (filterRows p) ! i) = (if shown then [] else ''none'')"
  using assms
  by (simp add: rows_filterRows filterRow_def Let_def string_includes_sublist)

lemma library_query: "toLowerCase (trim (orEmpty (searchInput library))) = ''gruff''"
  by code_simp

lemma gruffalo_lower:
  "toLowerCase (orEmpty (data_title gruffalo)) = ''the gruffalo''"
  "toLowerCase (orEmpty (data_live gruffalo)) = ''true''"
  by code_simp+

lemma moon_lower:
  "toLowerCase (orEmpty (data_title goodnightMoon)) = ''goodnight moon''"
  "toLowerCase (orEmpty (data_authors goodnightMoon)) = ''margaret wise brown''"
  "toLowerCase (orEmpty (data_tags goodnightMoon)) = ''bedtime''"
  by code_simp+

theorem filterRows_display_witness:
  "0 < length (rows library) \<and> 1 < length (rows library) \<and>
   display (rows (filterRows library) ! 0) = [] \<and>
   display (rows (filterRows library) ! 1) = ''none''"
proof -
  have l: "rows library = [gruffalo, goodnightMoon]" "liveOnlyCheckbox library = Some True"
    by (simp_all add: library_def)
  have s0: "sublist ''gruff'' ''the gruffalo''"
    by (simp add: string_includes_sublist [symmetric])
  have s1: "\<not> sublist ''gruff'' ''goodnight moon''" "\<not> sublist ''gruff'' ''margaret wise brown''"
     "\<not> sublist ''gruff'' ''bedtime''"
    by (simp_all add: string_includes_sublist [symmetric])
  show ?thesis
    using filterRows_display [of 0 library] filterRows_display [of 1 library]
    by (simp add: l library_query gruffalo_lower moon_lower s0 s1 Let_def)
qed

text \<open>
  Claim C7.  \<^verbatim>\<open>filterRows\<close> changes nothing but the display style of rows: with the
  display styles erased the table is the same list of rows, every other part of the page
  is as before, and no request is sent.
\<close>

theorem filterRows_changes_display_only:
  "map (\<lambda>r. r\<lparr>display := []\<rparr>) (rows (filterRows p)) = map (\<lambda>r. r\<lparr>display := []\<rparr>) (rows p) \<and>
   filterRows p = p\<lparr>rows := rows (filterRows p)\<rparr> \<and>
   effects (filterRows p) = effects p \<and>
   fetches (filterRows p) = fetches p"
  using filterRows_only_rows [of p]
  by (simp add: rows_filterRows filterRow_only_display fetches_def filterRows_def Let_def)

theorem filterRows_changes_display_only_witness:
  "map display (rows (filterRows library)) = [[], ''none''] \<and>
   map (\<lambda>r. r\<lparr>display := []\<rparr>) (rows (filterRows library))
     = map (\<lambda>r. r\<lparr>display := []\<rparr>) (rows library) \<and>
   fetches (filterRows library) = fetches library"
proof -
  have "map display (rows (filterRows library)) = [[], ''none'']"
    by code_simp
  then show ?thesis
    using filterRows_changes_display_only [of library] by simp
qed

section \<open>Inline editing\<close>

lemma setInnerHTMLs_length: "length (snd (setInnerHTMLs reparse as cs)) = length cs"
  by (induction reparse as cs rule: setInnerHTMLs.induct) auto




lemma cancelEditing_not_editing: "\<not> editing (rows p ! i) \<Longrightarrow> cancelEditing reparse i p = (Normal, p)"
  by (simp add: cancelEditing_def)

lemma cancelEditing_length:
  "cancelEditing reparse j p = (c, p') \<Longrightarrow> length (rows p') = length (rows p)"
  by (auto simp: cancelEditing_def Let_def
      split: if_splits prod.splits completion.splits option.splits)

lemma cancelEditing_other:
  "cancelEditing reparse j p = (c, p') \<Longrightarrow> j \<noteq> i \<Longrightarrow> rows p' ! i = rows p ! i"
  by (auto simp: cancelEditing_def Let_def
      split: if_splits prod.splits completion.splits option.splits)


lemma startEditing_row:
  assumes "startEditing tc reparse r = (c, r')"
  shows "editing r' \<and> originalValues r' = Some (cells r) \<and> length (cells r') = length (cells r)"
proof -
  have len: "\<And>as c' cs'. setInnerHTMLs reparse as (cells r) = (c', cs') \<Longrightarrow>
      length cs' = length (cells r)"
    using setInnerHTMLs_length by (metis snd_conv)
  show ?thesis
    using assms
    by (auto simp: startEditing_def Let_def simp del: setInnerHTMLs.simps
        split: option.splits prod.splits completion.splits dest: len)
qed



lemma cancelEditing_invariant:
  assumes "editingInvariant p" and "cancelEditing reparse j p = (c, p')" and "j < length (rows p)"
  shows "editingInvariant p'"
proof (cases "editing (rows p ! j)")
  case False
  with assms show ?thesis by (simp add: cancelEditing_not_editing)
next
  case True
  with assms have j: "editingRow p = Some j"
    by (simp add: editingInvariant_def)
  have others: "\<not> editing (rows p ! k)" if "k < length (rows p)" "k \<noteq> j" for k
    using that assms(1) j by (auto simp: editingInvariant_def)
  obtain c' cs where set: "setInnerHTMLs reparse
      (zip [0..<length (case originalValues (rows p ! j) of Some v \<Rightarrow> v | None \<Rightarrow> [])]
        (case originalValues (rows p ! j) of Some v \<Rightarrow> v | None \<Rightarrow> []))
      (cells (rows p ! j)) = (c', cs)"
    by (cases "setInnerHTMLs reparse
      (zip [0..<length (case originalValues (rows p ! j) of Some v \<Rightarrow> v | None \<Rightarrow> [])]
        (case originalValues (rows p ! j) of Some v \<Rightarrow> v | None \<Rightarrow> []))
      (cells (rows p ! j))")
  show ?thesis
  proof (cases c')
    case Normal
    with assms(2) True set
    have "p' = p\<lparr>rows := (rows p)[j := (rows p ! j)\<lparr>editing := False, cells := cs\<rparr>],
                   editingRow := None\<rparr>"
      by (simp add: cancelEditing_def Let_def)
    then show ?thesis
      using others assms(3) by (auto simp: editingInvariant_def nth_list_update)
  next
    case Thrown
    with assms(2) True set
    have "p' = p\<lparr>rows := (rows p)[j := (rows p ! j)\<lparr>cells := cs\<rparr>]\<rparr>"
      by (simp add: cancelEditing_def Let_def)
    then show ?thesis
      using others assms(3) j by (auto simp: editingInvariant_def nth_list_update)
  qed
qed

lemma cancelEditing_Normal:
  assumes "editingInvariant p" and "cancelEditing reparse j p = (Normal, p')" and "j < length (rows p)"
  shows "\<not> editing (rows p' ! j)"
  using assms
  by (auto simp: cancelEditing_def editingInvariant_def Let_def nth_list_update
      split: if_splits prod.splits completion.splits option.splits)

lemma cancelEditing_editing_other:
  assumes "cancelEditing reparse j p = (c, p')" and "j \<noteq> k"
  shows "editing (rows p' ! k) = editing (rows p ! k)"
  using assms cancelEditing_other [of reparse j p c p' k] by simp


lemma enableEditing_invariant:
  assumes inv: "editingInvariant p" and i: "i < length (rows p)"
    and en: "enableEditing textContent reparse i p = (c, p')"
  shows "editingInvariant p' \<and> length (rows p') = length (rows p) \<and>
         (c = Normal \<longrightarrow> editing (rows p' ! i) \<and> editingRow p' = Some i)"
proof -
  define pre where "pre = (case editingRow p of
                       Some j \<Rightarrow> if j \<noteq> i then cancelEditing reparse j p else (Normal, p)
                     | None \<Rightarrow> (Normal, p))"
  obtain c1 p1 where pre: "pre = (c1, p1)" by (cases pre)
  have len: "length (rows p1) = length (rows p)"
    using pre by (auto simp: pre_def split: option.splits if_splits dest: cancelEditing_length)
  have inv1: "editingInvariant p1"
  proof (cases "editingRow p")
    case None
    with pre inv show ?thesis by (simp add: pre_def)
  next
    case (Some j)
    with inv have "j < length (rows p)"
      by (simp add: editingInvariant_def)
    with Some pre inv show ?thesis
      by (auto simp: pre_def split: if_splits intro: cancelEditing_invariant)
  qed
  show ?thesis
  proof (cases c1)
    case Thrown
    then have "enableEditing textContent reparse i p = (Thrown, p1)"
      using pre by (simp add: enableEditing_def pre_def [symmetric])
    with en inv1 len show ?thesis by simp
  next
    case Normal
    have only_i: "k = i" if "k < length (rows p1)" "editing (rows p1 ! k)" for k
    proof (cases "editingRow p")
      case None
      with pre inv that show ?thesis
        by (auto simp: pre_def editingInvariant_def)
    next
      case (Some j)
      show ?thesis
      proof (cases "j = i")
        case True
        with Some pre inv that show ?thesis
          by (auto simp: pre_def editingInvariant_def)
      next
        case False
        with Some pre Normal have c: "cancelEditing reparse j p = (Normal, p1)"
          by (simp add: pre_def)
        from inv Some have j: "j < length (rows p)"
          by (simp add: editingInvariant_def)
        have "\<not> editing (rows p1 ! j)"
          using cancelEditing_Normal [OF inv c j] .
        with that have "k \<noteq> j" by auto
        then have "editing (rows p ! k)"
          using that(2) cancelEditing_editing_other [OF c, of k] by simp
        with inv that(1) len Some have "j = k"
          by (simp add: editingInvariant_def)
        with \<open>k \<noteq> j\<close> show ?thesis by simp
      qed
    qed
    show ?thesis
    proof (cases "editing (rows p1 ! i)")
      case True
      then have "enableEditing textContent reparse i p = (Normal, p1)"
        using pre Normal by (simp add: enableEditing_def pre_def [symmetric])
      with en have "c = Normal" "p' = p1" by simp_all
      moreover have "editingRow p1 = Some i"
        using inv1 True i len by (simp add: editingInvariant_def)
      ultimately show ?thesis using inv1 True len by simp
    next
      case False
      obtain c' r' where st: "startEditing textContent reparse (rows p1 ! i) = (c', r')"
        by (cases "startEditing textContent reparse (rows p1 ! i)")
      have "enableEditing textContent reparse i p
              = (c', p1\<lparr>rows := (rows p1)[i := r'], editingRow := Some i\<rparr>)"
        using pre Normal False st by (simp add: enableEditing_def pre_def [symmetric])
      with en have p': "p' = p1\<lparr>rows := (rows p1)[i := r'], editingRow := Some i\<rparr>"
        by simp
      have "editing r'"
        using startEditing_row [OF st] by simp
      then show ?thesis
        using p' i len only_i
        by (auto simp: editingInvariant_def nth_list_update)
    qed
  qed
qed

lemma enableEditing_already:
  assumes inv: "editingInvariant p" and i: "i < length (rows p)" and "editing (rows p ! i)"
  shows "enableEditing textContent reparse i p = (Normal, p)"
proof -
  have "editingRow p = Some i"
    using assms by (simp add: editingInvariant_def)
  then show ?thesis
    using assms(3) by (simp add: enableEditing_def)
qed

lemma editingInvariant_editingRow:
  "editingInvariant p \<Longrightarrow> k < length (rows p) \<Longrightarrow> editing (rows p ! k) \<Longrightarrow> editingRow p = Some k"
  by (simp add: editingInvariant_def)

lemma editingInvariant_editState:
  assumes "editState p' = editState p"
  shows "editingInvariant p' = editingInvariant p"
proof -
  from assms have r: "editingRow p' = editingRow p"
    and m: "map editing (rows p') = map editing (rows p)"
    by (simp_all add: editState_def)
  from m have len: "length (rows p') = length (rows p)"
    by (rule map_eq_imp_length_eq)
  have "editing (rows p' ! k) = editing (rows p ! k)" if "k < length (rows p)" for k
    using that len nth_map [of k "rows p'" editing] nth_map [of k "rows p" editing] m by simp
  then show ?thesis
    by (simp add: editingInvariant_def r len cong: option.case_cong)
qed

lemma editState_perform: "editState (perform e p) = editState p"
  by (simp add: editState_def perform_def)

lemma editState_showError: "editState (showError msg p) = editState p"
  by (simp add: showError_def editState_perform split: option.splits)
    (simp add: editState_def)

lemma editState_stopScanner: "editState (stopScanner p) = editState p"
  by (simp add: stopScanner_def editState_perform) (simp add: editState_def)

lemma editState_filterRow: "editing (filterRow q lo r) = editing r"
  by (simp add: filterRow_def Let_def)

lemma editState_filterRows: "editState (filterRows p) = editState p"
  by (simp add: editState_def rows_filterRows editState_filterRow)
    (simp add: filterRows_def Let_def)

lemma editState_readByIsbn: "editState (readByIsbn isbn p) = editState p"
  by (simp add: readByIsbn_def fetch_def editState_perform)

lemma editState_isbnInput: "editState (p\<lparr>isbnInput := v\<rparr>) = editState p"
  by (simp add: editState_def)

lemma editState_decoded: "editState (decoded mode decodedText p) = editState p"
  by (cases mode)
    (simp_all add: decoded_def defaultDecoded_def markReadDecoded_def Let_def
      editState_readByIsbn editState_stopScanner editState_showError editState_isbnInput
      split: option.splits)

lemma editState_liveToggleSettled:
  "editState (liveToggleSettled i newState resp p) = editState p"
proof (cases resp)
  case Rejected
  then show ?thesis by (simp add: liveToggleSettled_def)
next
  case (Resolved ok body)
  have "map editing ((rows p)[i := (rows p ! i)\<lparr>data_live := v\<rparr>]) = map editing (rows p)" for v
  proof (cases "i < length (rows p)")
    case True
    then have "(map editing (rows p))[i := map editing (rows p) ! i] = map editing (rows p)"
      by (simp only: list_update_id)
    with True show ?thesis by (simp add: map_update)
  next
    case False
    then have "(rows p)[i := (rows p ! i)\<lparr>data_live := v\<rparr>] = rows p"
      by (intro list_update_beyond) simp
    then show ?thesis by (simp only:)
  qed
  with Resolved show ?thesis
    by (simp add: liveToggleSettled_def editState_filterRows) (simp add: editState_def)
qed

lemma editState_settle: "editState (settle k resp p) = editState p"
  by (cases k)
    (simp_all add: readByIsbnSettled_def markReadSettled_def saveSettled_def Let_def
      editState_liveToggleSettled editState_showError editState_perform
      split: response.splits option.splits)


lemma editingInvariant_unchanged:
  "editState p' = editState p \<Longrightarrow> editingInvariant p \<Longrightarrow> editingInvariant p'"
  using editingInvariant_editState [of p' p] by simp

lemma editState_startScanner: "editState (startScanner mode p) = editState p"
  by (simp add: startScanner_def editState_showError editState_perform)
    (simp add: editState_def)

lemma editState_handle_other:
  assumes "\<And>i. e \<noteq> EditClicked i" and "\<And>i. e \<noteq> CancelClicked i"
  shows "editState (handle textContent reparse e p) = editState p"
proof (cases e)
  case (FetchSettled k resp)
  then show ?thesis
    by (simp add: editState_settle split: effect.splits)
next
  case (Decoded mode decodedText)
  then show ?thesis
    by (simp add: editState_decoded)
next
  case (SearchTyped v)
  have "editState (filterRows (p\<lparr>searchInput := Some v\<rparr>)) = editState p"
    by (simp add: editState_filterRows) (simp add: editState_def)
  with SearchTyped show ?thesis
    by (simp split: option.splits)
next
  case (LiveOnlyChanged checked)
  have "editState (filterRows (p\<lparr>liveOnlyCheckbox := Some checked\<rparr>)) = editState p"
    by (simp add: editState_filterRows) (simp add: editState_def)
  with LiveOnlyChanged show ?thesis
    by (simp split: option.splits)
next
  case (GiftChanged checked)
  have "editState (toggleGiftFromVisibility (p\<lparr>giftCheckbox := Some checked\<rparr>)) = editState p"
    by (simp add: toggleGiftFromVisibility_def editState_def)
  with GiftChanged show ?thesis
    by (simp split: option.splits)
next
  case StartScanClicked
  then show ?thesis by (simp add: editState_startScanner)
next
  case ScanMarkReadClicked
  then show ?thesis by (simp add: editState_startScanner)
next
  case StopScanClicked
  then show ?thesis by (simp add: editState_stopScanner)
next
  case ScannerStartFailed
  have "editState (startFailed p) = editState p"
    by (simp add: startFailed_def editState_showError) (simp add: editState_def perform_def)
  with ScannerStartFailed show ?thesis by simp
next
  case (ScannerStopSettled fulfilled)
  have "editState (stopSettled fulfilled p) = editState p"
    by (simp add: stopSettled_def editState_def perform_def)
  with ScannerStopSettled show ?thesis by simp
next
  case (LiveToggleChanged i newState)
  have "editState (liveToggleChanged i newState p) = editState p"
    by (simp add: liveToggleChanged_def fetch_def editState_perform)
  with LiveToggleChanged show ?thesis by simp
next
  case (MarkReadClicked i)
  have "editState (markReadClicked i p) = editState p"
    by (simp add: markReadClicked_def fetch_def editState_perform)
  with MarkReadClicked show ?thesis by simp
next
  case (SaveClicked i title authors tags giftFrom isGift)
  have "editState (saveClicked i title authors tags giftFrom isGift p) = editState p"
    by (simp add: saveClicked_def fetch_def editState_perform)
  with SaveClicked show ?thesis by simp
next
  case ErrorTimerFired
  have "editState (hideError p) = editState p"
    by (simp add: hideError_def editState_def)
  with ErrorTimerFired show ?thesis by simp
next
  case (EditClicked i)
  with assms(1) show ?thesis by blast
next
  case (CancelClicked i)
  with assms(2) show ?thesis by blast
qed

lemma editingInvariant_EditClicked:
  assumes "editingInvariant p"
  shows "editingInvariant (handle textContent reparse (EditClicked i) p)"
proof (cases "i < length (rows p)")
  case True
  obtain c p' where en: "enableEditing textContent reparse i p = (c, p')"
    by (cases "enableEditing textContent reparse i p")
  have "editingInvariant p'"
    using enableEditing_invariant [OF assms True en] by (rule conjunct1)
  with en True show ?thesis
    by simp
next
  case False
  with assms show ?thesis by simp
qed

lemma editingInvariant_CancelClicked:
  assumes "editingInvariant p"
  shows "editingInvariant (handle textContent reparse (CancelClicked i) p)"
proof (cases "i < length (rows p)")
  case True
  obtain c p' where ca: "cancelEditing reparse i p = (c, p')"
    by (cases "cancelEditing reparse i p")
  have "editingInvariant p'"
    using cancelEditing_invariant [OF assms ca True] .
  with ca True show ?thesis
    by simp
next
  case False
  with assms show ?thesis by simp
qed

lemma editingInvariant_handle:
  assumes "editingInvariant p"
  shows "editingInvariant (handle textContent reparse e p)"
proof (cases "(\<exists>i. e = EditClicked i) \<or> (\<exists>i. e = CancelClicked i)")
  case True
  then show ?thesis
    using editingInvariant_EditClicked [OF assms] editingInvariant_CancelClicked [OF assms]
    by blast
next
  case False
  then have "editState (handle textContent reparse e p) = editState p"
    by (intro editState_handle_other) blast+
  then show ?thesis
    using assms by (rule editingInvariant_unchanged)
qed

lemma editingInvariant_run:
  "editingInvariant p \<Longrightarrow> editingInvariant (run textContent reparse es p)"
  by (induction es arbitrary: p) (simp_all add: editingInvariant_handle)

lemma editingInvariant_loaded:
  assumes "editingRow p = None" and "\<forall>k < length (rows p). \<not> editing (rows p ! k)"
  shows "editingInvariant (loaded p)"
proof -
  have "editState (loaded p) = editState p"
    by (simp add: loaded_def editState_filterRows)
      (simp add: toggleGiftFromVisibility_def editState_def split: option.splits)
  moreover have "editingInvariant p"
    using assms by (simp add: editingInvariant_def)
  ultimately show ?thesis
    by (rule editingInvariant_unchanged)
qed

text \<open>
  Claim C9.  At most one row is in editing mode.  Where a row with the class
  \<^verbatim>\<open>editing\<close> is always the row \<^verbatim>\<open>editingRow\<close> refers to, no two rows have the class;
  \<^verbatim>\<open>enableEditing\<close> and \<^verbatim>\<open>cancelEditing\<close> keep it so; \<^verbatim>\<open>enableEditing\<close> does nothing
  on a row that has the class already; when it returns, the target row is the one row
  with the class; and it stays so whatever happens on the page afterwards.
\<close>

theorem one_row_editing:
  assumes "editingInvariant p" and "i < length (rows p)"
  shows "(\<forall>k < length (rows p). \<forall>l < length (rows p).
            editing (rows p ! k) \<and> editing (rows p ! l) \<longrightarrow> k = l) \<and>
         editingInvariant (snd (enableEditing textContent reparse i p)) \<and>
         editingInvariant (snd (cancelEditing reparse i p)) \<and>
         (editing (rows p ! i) \<longrightarrow> enableEditing textContent reparse i p = (Normal, p)) \<and>
         (fst (enableEditing textContent reparse i p) = Normal \<longrightarrow>
            (\<forall>k < length (rows p).
               editing (rows (snd (enableEditing textContent reparse i p)) ! k) = (k = i))) \<and>
         editingInvariant (run textContent reparse es p)"
proof -
  obtain c p' where en: "enableEditing textContent reparse i p = (c, p')"
    by (cases "enableEditing textContent reparse i p")
  obtain c2 p2 where ca: "cancelEditing reparse i p = (c2, p2)"
    by (cases "cancelEditing reparse i p")
  have one: "\<forall>k < length (rows p). \<forall>l < length (rows p).
            editing (rows p ! k) \<and> editing (rows p ! l) \<longrightarrow> k = l"
  proof (intro allI impI)
    fix k l
    assume k: "k < length (rows p)" and l: "l < length (rows p)"
      and e: "editing (rows p ! k) \<and> editing (rows p ! l)"
    have "editingRow p = Some k"
      using assms(1) k e by (blast intro: editingInvariant_editingRow)
    moreover have "editingRow p = Some l"
      using assms(1) l e by (blast intro: editingInvariant_editingRow)
    ultimately show "k = l" by simp
  qed
  have inv': "editingInvariant p'"
    and normal: "c = Normal \<longrightarrow> editing (rows p' ! i) \<and> editingRow p' = Some i"
    and len: "length (rows p') = length (rows p)"
    using enableEditing_invariant [OF assms en] by simp_all
  have only: "c = Normal \<longrightarrow> (\<forall>k < length (rows p). editing (rows p' ! k) = (k = i))"
  proof (intro allI impI)
    fix k
    assume c: "c = Normal" and k: "k < length (rows p)"
    from c normal have i: "editing (rows p' ! i)" "editingRow p' = Some i"
      by simp_all
    show "editing (rows p' ! k) = (k = i)"
    proof
      assume "editing (rows p' ! k)"
      with inv' k len have "editingRow p' = Some k"
        by (intro editingInvariant_editingRow) simp_all
      with i(2) show "k = i" by simp
    next
      assume "k = i"
      with i(1) show "editing (rows p' ! k)" by simp
    qed
  qed
  have inv2: "editingInvariant p2"
    using cancelEditing_invariant [OF assms(1) ca assms(2)] .
  have already: "editing (rows p ! i) \<longrightarrow> (c, p') = (Normal, p)"
    using enableEditing_already [OF assms, of textContent reparse] en by simp
  have run: "editingInvariant (run textContent reparse es p)"
    using assms(1) by (rule editingInvariant_run)
  from inv' inv2 already only run have
    "editingInvariant (snd (c, p')) \<and> editingInvariant (snd (c2, p2)) \<and>
     (editing (rows p ! i) \<longrightarrow> (c, p') = (Normal, p)) \<and>
     (fst (c, p') = Normal \<longrightarrow>
        (\<forall>k < length (rows p). editing (rows (snd (c, p')) ! k) = (k = i))) \<and>
     editingInvariant (run textContent reparse es p)"
    by simp
  with one show ?thesis
    unfolding en ca by (rule conjI)
qed



lemma library_invariant: "editingInvariant library"
  by (simp add: editingInvariant_def library_def gruffalo_def goodnightMoon_def less_Suc_eq)

lemma library_editing:
  "map editing (rows (snd (enableEditing id id 0 library))) = [True, False]"
  "fst (enableEditing id id 0 library) = Normal"
  "map editing (rows (snd (enableEditing id id 1 (snd (enableEditing id id 0 library))))) = [False, True]"
  "fst (enableEditing id id 1 (snd (enableEditing id id 0 library))) = Normal"
  "map editing (rows (snd (cancelEditing id 0 (snd (enableEditing id id 0 library))))) = [False, False]"
  by code_simp+




theorem one_row_editing_witness:
  "editingInvariant library \<and> 0 < length (rows library) \<and>
   editingInvariant (snd (enableEditing id id 0 library)) \<and>
   map editing (rows (snd (enableEditing id id 0 library))) = [True, False] \<and>
   editingInvariant (snd (enableEditing id id 1 (snd (enableEditing id id 0 library)))) \<and>
   map editing (rows (snd (enableEditing id id 1 (snd (enableEditing id id 0 library)))))
     = [False, True]"
proof -
  have h: "0 < length (rows library)"
    by (simp add: library_def)
  have inv1: "editingInvariant (snd (enableEditing id id 0 library))"
    using one_row_editing [OF library_invariant h, of id id] by simp
  have "length (map editing (rows (snd (enableEditing id id 0 library)))) = 2"
    by (simp only: library_editing) simp
  then have h1: "1 < length (rows (snd (enableEditing id id 0 library)))"
    by simp
  have "editingInvariant (snd (enableEditing id id 1 (snd (enableEditing id id 0 library))))"
    using one_row_editing [OF inv1 h1, of id id] by simp
  then show ?thesis
    using library_invariant h inv1 library_editing by simp
qed

section \<open>Scanning\<close>

lemma foldl_last_match:
  "foldl (\<lambda>m r. if P r then Some r else m) m0 rs
     = (if filter P rs = [] then m0 else Some (last (filter P rs)))"
  by (induction rs arbitrary: m0) simp_all

lemma isbnMatches_iff:
  "isbnMatches scanned r =
     (scanned \<noteq> [] \<and> normalizeIsbn (JString (orEmpty (data_isbn r))) = scanned)"
  by (auto simp: isbnMatches_def Let_def)

lemma filter_isbnMatches:
  "filter (isbnMatches scanned) rs =
     (if scanned = [] then []
      else filter (\<lambda>r. normalizeIsbn (JString (orEmpty (data_isbn r))) = scanned) rs)"
  by (induction rs) (simp_all add: isbnMatches_iff)

lemma matching_has_isbn:
  "normalizeIsbn (JString (orEmpty (data_isbn r))) \<noteq> [] \<Longrightarrow>
   template (data_isbn r) = orEmpty (data_isbn r) \<and> data_isbn r \<noteq> None"
  by (cases "data_isbn r") (simp_all add: normalizeIsbn_def)

lemma fetches_perform:
  "fetches (perform e p) = fetches p @ (case e of Fetch r k \<Rightarrow> [r] | _ \<Rightarrow> [])"
  by (simp add: fetches_def perform_def)

lemma fetches_update:
  "fetches (p\<lparr>rows := a\<rparr>) = fetches p"
  "fetches (p\<lparr>searchInput := b\<rparr>) = fetches p"
  "fetches (p\<lparr>liveOnlyCheckbox := c\<rparr>) = fetches p"
  "fetches (p\<lparr>giftCheckbox := d\<rparr>) = fetches p"
  "fetches (p\<lparr>giftFromGroup := e\<rparr>) = fetches p"
  "fetches (p\<lparr>giftFromInput := f\<rparr>) = fetches p"
  "fetches (p\<lparr>isbnInput := g\<rparr>) = fetches p"
  "fetches (p\<lparr>scannerContainer := h\<rparr>) = fetches p"
  "fetches (p\<lparr>errorMessageDiv := i\<rparr>) = fetches p"
  "fetches (p\<lparr>html5QrCode := j\<rparr>) = fetches p"
  "fetches (p\<lparr>editingRow := k\<rparr>) = fetches p"
  by (simp_all add: fetches_def)

lemma fetches_showError: "fetches (showError msg p) = fetches p"
  by (simp add: showError_def fetches_perform fetches_update split: option.splits)

lemma fetches_stopScanner: "fetches (stopScanner p) = fetches p"
  by (simp add: stopScanner_def fetches_perform fetches_update)

lemma effects_stopScanner:
  "effects (stopScanner p) = effects p @ (if html5QrCode p then [ScannerStop] else [])"
  by (simp add: stopScanner_def perform_def)

lemma errorMessageDiv_stopScanner: "errorMessageDiv (stopScanner p) = errorMessageDiv p"
  by (simp add: stopScanner_def perform_def)

lemma errorMessageDiv_showError:
  "errorMessageDiv (showError msg p) =
     (case errorMessageDiv p of Some shown \<Rightarrow> Some (msg, ''block'') | None \<Rightarrow> None)"
  by (simp add: showError_def perform_def split: option.splits)

lemma effects_showError:
  "effects (showError msg p) = effects p @
     [case errorMessageDiv p of Some shown \<Rightarrow> SetTimeout 6000 | None \<Rightarrow> Alert msg]"
  by (simp add: showError_def perform_def split: option.splits)

lemma isbnInput_showError: "isbnInput (showError msg p) = isbnInput p"
  by (simp add: showError_def perform_def split: option.splits)

lemma stopScanner_isbnInput:
  "isbnInput (stopScanner (p\<lparr>isbnInput := v\<rparr>)) = v"
  "effects (stopScanner (p\<lparr>isbnInput := v\<rparr>)) = effects (stopScanner p)"
  "errorMessageDiv (stopScanner (p\<lparr>isbnInput := v\<rparr>)) = errorMessageDiv p"
  by (simp_all add: stopScanner_def perform_def)

text \<open>
  Claim C3.  A barcode decoded in the default scan mode: when the digits of the decoded
  text are not empty and are the digits of the \<^verbatim>\<open>data-isbn\<close> of some row, the script
  stops the scanner and posts the \<^verbatim>\<open>data-isbn\<close> of such a row (the last one in the
  table), as the row has it, to \<^verbatim>\<open>/read_by_isbn\<close>, and does nothing else.  Otherwise it
  writes the decoded text as it is into the ISBN input, stops the scanner and shows the
  message (in the message element, made visible, or in an alert when the page has no such
  element), and sends no request.  Stopping the scanner is the call of its \<^verbatim>\<open>stop\<close>
  when the script holds a scanner, as it does whenever a barcode is decoded.
\<close>

theorem default_scan:
  "let scanned = normalizeIsbn (JString decodedText);
       matching = filter (\<lambda>r. normalizeIsbn (JString (orEmpty (data_isbn r))) = scanned) (rows p)
   in (html5QrCode p \<longrightarrow> stopScanner p = perform ScannerStop p) \<and>
      effects (stopScanner p) = effects p @ (if html5QrCode p then [ScannerStop] else []) \<and>
      (if scanned \<noteq> [] \<and> matching \<noteq> []
       then last matching \<in> set (rows p) \<and>
            normalizeIsbn (JString (orEmpty (data_isbn (last matching)))) = scanned \<and>
            data_isbn (last matching) \<noteq> None \<and>
            defaultDecoded decodedText p =
              perform (Fetch \<lparr>url = ''/read_by_isbn'', httpMethod = ''POST'', headers = formHeaders,
                             body = Some (''isbn='' @
                               encodeURIComponent (orEmpty (data_isbn (last matching))))\<rparr>
                         ReadByIsbnDone)
                (stopScanner p) \<and>
            effects (defaultDecoded decodedText p) = effects (stopScanner p) @
              [Fetch \<lparr>url = ''/read_by_isbn'', httpMethod = ''POST'', headers = formHeaders,
                      body = Some (''isbn='' @
                        encodeURIComponent (orEmpty (data_isbn (last matching))))\<rparr>
                 ReadByIsbnDone]
       else defaultDecoded decodedText p =
              showError notFoundMessage (stopScanner (p\<lparr>isbnInput := decodedText\<rparr>)) \<and>
            isbnInput (defaultDecoded decodedText p) = decodedText \<and>
            errorMessageDiv (defaultDecoded decodedText p) =
              (case errorMessageDiv p of
                 Some shown \<Rightarrow> Some (notFoundMessage, ''block'')
               | None \<Rightarrow> None) \<and>
            effects (defaultDecoded decodedText p) = effects (stopScanner p) @
              [case errorMessageDiv p of
                 Some shown \<Rightarrow> SetTimeout 6000
               | None \<Rightarrow> Alert notFoundMessage] \<and>
            fetches (defaultDecoded decodedText p) = fetches p)"
proof -
  define scanned where "scanned = normalizeIsbn (JString decodedText)"
  define matching where
    "matching = filter (\<lambda>r. normalizeIsbn (JString (orEmpty (data_isbn r))) = scanned) (rows p)"
  have matched: "foldl (\<lambda>m r. if isbnMatches scanned r then Some r else m) None (rows p)
      = (if scanned \<noteq> [] \<and> matching \<noteq> [] then Some (last matching) else None)"
    by (simp add: foldl_last_match filter_isbnMatches matching_def)
  have stop: "html5QrCode p \<longrightarrow> stopScanner p = perform ScannerStop p"
    by (simp add: stopScanner_def)
  note stopped = effects_stopScanner [of p]
  show ?thesis
  proof (cases "scanned \<noteq> [] \<and> matching \<noteq> []")
    case True
    then have "last matching \<in> set matching"
      by simp
    then have in_rows: "last matching \<in> set (rows p)"
      and eq: "normalizeIsbn (JString (orEmpty (data_isbn (last matching)))) = scanned"
      by (simp_all add: matching_def)
    from eq True have raw: "template (data_isbn (last matching)) = orEmpty (data_isbn (last matching))"
      "data_isbn (last matching) \<noteq> None"
      using matching_has_isbn [of "last matching"] by simp_all
    have d: "defaultDecoded decodedText p =
            readByIsbn (orEmpty (data_isbn (last matching))) (stopScanner p)"
      using True matched raw
      by (simp add: defaultDecoded_def scanned_def [symmetric])
    have e: "effects (readByIsbn (orEmpty (data_isbn (last matching))) (stopScanner p)) =
        effects (stopScanner p) @
          [Fetch \<lparr>url = ''/read_by_isbn'', httpMethod = ''POST'', headers = formHeaders,
                  body = Some (''isbn='' @
                    encodeURIComponent (orEmpty (data_isbn (last matching))))\<rparr>
             ReadByIsbnDone]"
      by (simp add: readByIsbn_def fetch_def perform_def)
    from True in_rows eq raw stop stopped d e show ?thesis
      unfolding Let_def scanned_def [symmetric] matching_def [symmetric]
      by (simp add: readByIsbn_def fetch_def)
  next
    case False
    with matched
    have "foldl (\<lambda>m r. if isbnMatches scanned r then Some r else m) None (rows p) = None"
      by (simp only: if_False)
    then have d: "defaultDecoded decodedText p =
            showError notFoundMessage (stopScanner (p\<lparr>isbnInput := decodedText\<rparr>))"
      by (simp add: defaultDecoded_def scanned_def [symmetric])
    let ?q = "showError notFoundMessage (stopScanner (p\<lparr>isbnInput := decodedText\<rparr>))"
    have "isbnInput ?q = decodedText"
      by (simp add: isbnInput_showError stopScanner_isbnInput)
    moreover have "errorMessageDiv ?q =
        (case errorMessageDiv p of
           Some shown \<Rightarrow> Some (notFoundMessage, ''block'')
         | None \<Rightarrow> None)"
      by (simp add: errorMessageDiv_showError stopScanner_isbnInput)
    moreover have "effects ?q = effects (stopScanner p) @
        [case errorMessageDiv p of
           Some shown \<Rightarrow> SetTimeout 6000
         | None \<Rightarrow> Alert notFoundMessage]"
      by (simp add: effects_showError stopScanner_isbnInput)
    moreover have "fetches ?q = fetches p"
      by (simp add: fetches_showError fetches_stopScanner fetches_update)
    ultimately show ?thesis
      using False stop stopped
      unfolding Let_def scanned_def [symmetric] matching_def [symmetric] d
      by (simp only: if_not_P simp_thms)
  qed
qed

lemma fetches_effects: "effects p' = effects p \<Longrightarrow> fetches p' = fetches p"
  by (simp add: fetches_def)

lemma fetches_filterRows: "fetches (filterRows p) = fetches p"
  by (simp add: fetches_def filterRows_def Let_def)

lemma effects_filterRows: "effects (filterRows p) = effects p"
  by (simp add: filterRows_def Let_def)

lemma effects_cancelEditing: "cancelEditing reparse j p = (c, p') \<Longrightarrow> effects p' = effects p"
  by (auto simp: cancelEditing_def Let_def
      split: if_splits prod.splits completion.splits option.splits)

lemma effects_enableEditing:
  assumes "enableEditing textContent reparse i p = (c, p')"
  shows "effects p' = effects p"
proof -
  define pre where "pre = (case editingRow p of
                       Some j \<Rightarrow> if j \<noteq> i then cancelEditing reparse j p else (Normal, p)
                     | None \<Rightarrow> (Normal, p))"
  obtain c1 p1 where pre: "pre = (c1, p1)" by (cases pre)
  have "effects p1 = effects p"
    using pre by (auto simp: pre_def split: option.splits if_splits dest: effects_cancelEditing)
  moreover have "effects p' = effects p1"
    using assms pre
    by (auto simp: enableEditing_def pre_def [symmetric] Let_def
        split: completion.splits if_splits prod.splits)
  ultimately show ?thesis by simp
qed

lemma fetches_startScanner: "fetches (startScanner mode p) = fetches p"
  by (simp add: startScanner_def fetches_showError fetches_perform fetches_update)

lemma fetches_startFailed: "fetches (startFailed p) = fetches p"
  by (simp add: startFailed_def fetches_showError fetches_perform fetches_update)

lemma fetches_stopSettled: "fetches (stopSettled ok p) = fetches p"
  by (simp add: stopSettled_def fetches_perform fetches_update)

lemma fetches_fetch: "fetches (fetch r k p) = fetches p @ [r]"
  by (simp add: fetch_def fetches_perform)

lemma fetches_readByIsbn:
  "fetches (readByIsbn isbn p) = fetches p @
     [\<lparr>url = ''/read_by_isbn'', httpMethod = ''POST'', headers = formHeaders,
       body = Some (''isbn='' @ encodeURIComponent isbn)\<rparr>]"
  by (simp add: readByIsbn_def fetches_fetch)

lemma fetches_decoded:
  "set (fetches (decoded mode decodedText p)) \<subseteq> set (fetches p) \<union> Collect postsToEndpoint"
  by (cases mode)
    (auto simp: decoded_def defaultDecoded_def markReadDecoded_def Let_def fetches_readByIsbn
      fetches_stopScanner fetches_showError postsToEndpoint_def fetches_update
      split: option.splits)

lemma fetches_settle: "fetches (settle k resp p) = fetches p"
proof (cases k)
  case ReadByIsbnDone
  then show ?thesis
    by (simp add: readByIsbnSettled_def Let_def fetches_showError fetches_perform
        split: response.splits option.splits)
next
  case (LiveToggleDone i b)
  then show ?thesis
    by (simp add: liveToggleSettled_def fetches_filterRows fetches_update
        split: response.splits)
next
  case MarkReadDone
  then show ?thesis
    by (simp add: markReadSettled_def fetches_perform split: response.splits)
next
  case SaveDone
  then show ?thesis
    by (simp add: saveSettled_def fetches_showError fetches_perform split: response.splits)
qed

lemma fetches_handle:
  "set (fetches (handle textContent reparse e p)) \<subseteq> set (fetches p) \<union> Collect postsToEndpoint"
proof (cases e)
  case (Decoded mode decodedText)
  then show ?thesis using fetches_decoded by simp
next
  case (GiftChanged checked)
  then show ?thesis
    by (auto simp: toggleGiftFromVisibility_def fetches_update split: option.splits)
next
  case (SearchTyped v)
  then show ?thesis
    by (auto simp: fetches_filterRows fetches_update split: option.splits)
next
  case (LiveOnlyChanged checked)
  then show ?thesis
    by (auto simp: fetches_filterRows fetches_update split: option.splits)
next
  case (LiveToggleChanged i newState)
  then show ?thesis
    by (auto simp: liveToggleChanged_def fetches_fetch postsToEndpoint_def)
next
  case (MarkReadClicked i)
  then show ?thesis
    by (auto simp: markReadClicked_def fetches_fetch postsToEndpoint_def)
next
  case (EditClicked i)
  obtain c p' where en: "enableEditing textContent reparse i p = (c, p')"
    by (cases "enableEditing textContent reparse i p")
  with EditClicked show ?thesis
    using fetches_effects [OF effects_enableEditing [OF en]] by auto
next
  case (SaveClicked i title authors tags giftFrom isGift)
  then show ?thesis
    by (auto simp: saveClicked_def fetches_fetch postsToEndpoint_def)
next
  case (CancelClicked i)
  obtain c p' where ca: "cancelEditing reparse i p = (c, p')"
    by (cases "cancelEditing reparse i p")
  with CancelClicked show ?thesis
    using fetches_effects [OF effects_cancelEditing [OF ca]] by auto
next
  case (FetchSettled k resp)
  then show ?thesis
    by (auto simp: fetches_settle split: effect.splits)
next
  case ErrorTimerFired
  then show ?thesis by (simp add: hideError_def fetches_update)
qed (simp_all add: fetches_startScanner fetches_stopScanner fetches_startFailed
      fetches_stopSettled)

lemma fetches_run:
  "set (fetches (run textContent reparse es p)) \<subseteq> set (fetches p) \<union> Collect postsToEndpoint"
proof (induction es arbitrary: p)
  case Nil
  then show ?case by simp
next
  case (Cons e es)
  have "set (fetches (run textContent reparse es (handle textContent reparse e p)))
          \<subseteq> set (fetches (handle textContent reparse e p)) \<union> Collect postsToEndpoint"
    by (rule Cons.IH)
  with fetches_handle [of textContent reparse e p] show ?case by auto
qed

lemma fetches_loaded: "fetches (loaded p) = fetches p"
  by (simp add: loaded_def fetches_filterRows toggleGiftFromVisibility_def fetches_update
      split: option.splits)

text \<open>
  Claim C5.  Whatever happens on the page after it is loaded, every request the script
  has sent with \<^verbatim>\<open>fetch\<close> is a \<^verbatim>\<open>POST\<close> whose address is \<^verbatim>\<open>/read_by_isbn\<close> or starts
  with \<^verbatim>\<open>/update/\<close> or \<^verbatim>\<open>/read/\<close>.
\<close>

theorem fetches_post_to_three_endpoints:
  assumes "\<forall>r \<in> set (fetches p). postsToEndpoint r"
  shows "\<forall>r \<in> set (fetches (run textContent reparse es (loaded p))). postsToEndpoint r"
  using assms fetches_run [of textContent reparse es "loaded p"] by (auto simp: fetches_loaded)

lemma library_fetches: "fetches library = []"
  by (simp add: fetches_def library_def)

lemma library_run:
  "map url (fetches (run id id [LiveToggleChanged 0 False, MarkReadClicked 1,
      Decoded MarkReadMode ''9780060775858''] (loaded library)))
     = [''/update/7'', ''/read/8'', ''/read_by_isbn'']"
  "map httpMethod (fetches (run id id [LiveToggleChanged 0 False, MarkReadClicked 1,
      Decoded MarkReadMode ''9780060775858''] (loaded library)))
     = [''POST'', ''POST'', ''POST'']"
  by code_simp+

theorem fetches_post_to_three_endpoints_witness:
  "fetches library = [] \<and>
   map url (fetches (run id id [LiveToggleChanged 0 False, MarkReadClicked 1,
      Decoded MarkReadMode ''9780060775858''] (loaded library)))
     = [''/update/7'', ''/read/8'', ''/read_by_isbn''] \<and>
   list_all postsToEndpoint (fetches (run id id [LiveToggleChanged 0 False, MarkReadClicked 1,
      Decoded MarkReadMode ''9780060775858''] (loaded library)))"
proof -
  have h: "\<forall>r \<in> set (fetches library). postsToEndpoint r"
    by (simp add: library_fetches)
  show ?thesis
    using fetches_post_to_three_endpoints [OF h, of id id "[LiveToggleChanged 0 False,
      MarkReadClicked 1, Decoded MarkReadMode ''9780060775858'']"] library_run(1)
    by (simp add: library_fetches list_all_iff)
qed

lemma library_scan:
  "normalizeIsbn (JString ''9781509804755'') = ''9781509804755''"
  "filter (\<lambda>r. normalizeIsbn (JString (orEmpty (data_isbn r))) = ''9781509804755'') (rows library)
     = [gruffalo]"
  "encodeURIComponent (orEmpty (data_isbn gruffalo)) = ''978-1-5098-0475-5''"
  "stopScanner library = perform ScannerStop library"
  "normalizeIsbn (JString ''no isbn'') = []"
  by code_simp+

theorem default_scan_witness:
  "defaultDecoded ''9781509804755'' library =
     perform (Fetch \<lparr>url = ''/read_by_isbn'', httpMethod = ''POST'', headers = formHeaders,
                    body = Some ''isbn=978-1-5098-0475-5''\<rparr> ReadByIsbnDone)
       (perform ScannerStop library) \<and>
   effects (defaultDecoded ''9781509804755'' library) =
     [ScannerStop,
      Fetch \<lparr>url = ''/read_by_isbn'', httpMethod = ''POST'', headers = formHeaders,
             body = Some ''isbn=978-1-5098-0475-5''\<rparr> ReadByIsbnDone] \<and>
   isbnInput (defaultDecoded ''no isbn'' library) = ''no isbn'' \<and>
   errorMessageDiv (defaultDecoded ''no isbn'' library) = Some (notFoundMessage, ''block'') \<and>
   effects (defaultDecoded ''no isbn'' library) = [ScannerStop, SetTimeout 6000] \<and>
   fetches (defaultDecoded ''no isbn'' library) = []"
proof -
  have l: "html5QrCode library" "effects library = []"
    "errorMessageDiv library = Some ([], ''none'')"
    by (simp_all add: library_def)
  have found: "defaultDecoded ''9781509804755'' library =
      perform (Fetch \<lparr>url = ''/read_by_isbn'', httpMethod = ''POST'', headers = formHeaders,
                     body = Some ''isbn=978-1-5098-0475-5''\<rparr> ReadByIsbnDone)
        (perform ScannerStop library) \<and>
     effects (defaultDecoded ''9781509804755'' library) =
       [ScannerStop,
        Fetch \<lparr>url = ''/read_by_isbn'', httpMethod = ''POST'', headers = formHeaders,
               body = Some ''isbn=978-1-5098-0475-5''\<rparr> ReadByIsbnDone]"
    using default_scan [of "''9781509804755''" library]
    by (simp add: library_scan l Let_def perform_def)
  have missing: "isbnInput (defaultDecoded ''no isbn'' library) = ''no isbn'' \<and>
     errorMessageDiv (defaultDecoded ''no isbn'' library) = Some (notFoundMessage, ''block'') \<and>
     effects (defaultDecoded ''no isbn'' library) = [ScannerStop, SetTimeout 6000] \<and>
     fetches (defaultDecoded ''no isbn'' library) = []"
    using default_scan [of "''no isbn''" library]
    by (simp add: library_scan l library_fetches Let_def isbnInput_showError
        stopScanner_isbnInput errorMessageDiv_showError effects_showError effects_stopScanner
        fetches_showError fetches_stopScanner fetches_update)
  from found missing show ?thesis by blast
qed

lemma toLowerCase_false: "toLowerCase ''false'' \<noteq> ''true''"
  by code_simp

lemma filterRow_not_live:
  "toLowerCase (orEmpty (data_live r)) \<noteq> ''true'' \<Longrightarrow> display (filterRow q True r) = ''none''"
  by (simp add: filterRow_def Let_def)

text \<open>
  Claim C6.  A change of the live checkbox of row \<open>i\<close> to \<open>newState\<close> posts
  \<^verbatim>\<open>is_live=<newState>\<close> to \<^verbatim>\<open>/update/:id\<close>.  When that request resolves, on the page
  \<open>q\<close> as it then is, the row's \<^verbatim>\<open>data-live\<close> becomes \<^verbatim>\<open>true\<close> if the box was checked
  and \<^verbatim>\<open>false\<close> if not, and \<^verbatim>\<open>filterRows\<close> runs on the whole table; so a row unchecked
  while the live-only filter is on is hidden.
\<close>

theorem liveToggle_resolved:
  assumes "i < length (rows q)"
  shows "let sent = liveToggleChanged i newState p;
             q' = settle (LiveToggleDone i newState) (Resolved ok txt) q
         in effects sent = effects p @
              [Fetch \<lparr>url = ''/update/'' @ template (data_id (rows p ! i)), httpMethod = ''POST'',
                      headers = formHeaders,
                      body = Some (''is_live='' @ (if newState then ''true'' else ''false''))\<rparr>
                 (LiveToggleDone i newState)] \<and>
            data_live (rows q' ! i) = Some (if newState then ''true'' else ''false'') \<and>
            (data_live (rows q' ! i) = Some ''true'') = newState \<and>
            q' = filterRows (q\<lparr>rows := (rows q)[i := (rows q ! i)\<lparr>data_live :=
                   Some (if newState then ''true'' else ''false'')\<rparr>]\<rparr>) \<and>
            (\<not> newState \<and> liveOnlyCheckbox q = Some True \<longrightarrow> display (rows q' ! i) = ''none'')"
proof -
  let ?v = "if newState then ''true'' else ''false''"
  let ?q1 = "q\<lparr>rows := (rows q)[i := (rows q ! i)\<lparr>data_live := Some ?v\<rparr>]\<rparr>"
  have sent: "effects (liveToggleChanged i newState p) = effects p @
              [Fetch \<lparr>url = ''/update/'' @ template (data_id (rows p ! i)), httpMethod = ''POST'',
                      headers = formHeaders, body = Some (''is_live='' @ ?v)\<rparr>
                 (LiveToggleDone i newState)]"
    by (simp add: liveToggleChanged_def fetch_def perform_def boolString_def)
  have q': "settle (LiveToggleDone i newState) (Resolved ok txt) q = filterRows ?q1"
    by (simp add: liveToggleSettled_def)
  have row: "rows (filterRows ?q1) ! i =
      filterRow (toLowerCase (trim (orEmpty (searchInput q)))) (liveOnlyCheckbox q = Some True)
        ((rows q ! i)\<lparr>data_live := Some ?v\<rparr>)"
    using assms by (simp add: rows_filterRows)
  have live: "data_live (rows (filterRows ?q1) ! i) = Some ?v"
    unfolding row by (simp add: filterRow_def Let_def)
  have eq: "(data_live (rows (filterRows ?q1) ! i) = Some ''true'') = newState"
    unfolding live by simp
  have hidden: "\<not> newState \<and> liveOnlyCheckbox q = Some True \<longrightarrow>
      display (rows (filterRows ?q1) ! i) = ''none''"
    unfolding row using toLowerCase_false by (simp add: filterRow_not_live)
  show ?thesis
    unfolding Let_def q' using sent live eq hidden by simp
qed

lemma library_toggle:
  "data_live (rows library ! 0) = Some ''true''"
  "map display (rows (settle (LiveToggleDone 0 False) (Resolved True (Some [])) library))
     = [''none'', ''none'']"
  "map data_live (rows (settle (LiveToggleDone 0 False) (Resolved True (Some [])) library))
     = [Some ''false'', Some ''false'']"
  by code_simp+

theorem liveToggle_resolved_witness:
  "0 < length (rows library) \<and>
   data_live (rows (settle (LiveToggleDone 0 False) (Resolved True (Some [])) library) ! 0)
     = Some ''false'' \<and>
   display (rows (settle (LiveToggleDone 0 False) (Resolved True (Some [])) library) ! 0)
     = ''none''"
proof -
  have h: "0 < length (rows library)" "liveOnlyCheckbox library = Some True"
    by (simp_all add: library_def)
  have s: "filterRows (library\<lparr>rows := (rows library)[0 := (rows library ! 0)\<lparr>data_live :=
             Some ''false''\<rparr>]\<rparr>)
           = settle (LiveToggleDone 0 False) (Resolved True (Some [])) library"
    by (simp add: liveToggleSettled_def)
  show ?thesis
    using liveToggle_resolved [OF h(1), of False library True "Some []"] h
    by (simp add: Let_def s del: settle.simps)
qed

text \<open>
  The reactions to a failed request of the handlers other than the live checkbox: a
  message, or a reload, and nothing else.
\<close>

lemma onlyMessageOrReload_refl: "onlyMessageOrReload p p"
  by (simp add: onlyMessageOrReload_def)

lemma onlyMessageOrReload_perform:
  "messageOrReload e \<Longrightarrow> onlyMessageOrReload p (perform e p)"
  by (simp add: onlyMessageOrReload_def perform_def)

lemma onlyMessageOrReload_showError: "onlyMessageOrReload p (showError msg p)"
  by (simp add: onlyMessageOrReload_def showError_def perform_def split: option.splits)

lemma onlyMessageOrReload_logged:
  "onlyMessageOrReload p (showError msg (perform (ConsoleError s) p))"
  by (simp add: onlyMessageOrReload_def showError_def perform_def split: option.splits)

lemma failure_other_handlers:
  assumes "failure resp" and "k \<in> {ReadByIsbnDone, MarkReadDone, SaveDone}"
  shows "onlyMessageOrReload p (settle k resp p)"
  using assms
  by (auto simp: failure_def readByIsbnSettled_def markReadSettled_def saveSettled_def Let_def
      onlyMessageOrReload_refl onlyMessageOrReload_perform onlyMessageOrReload_showError
      onlyMessageOrReload_logged
      split: response.splits option.splits)


text \<open>
  Claim C4 says that the script reacts to a failed request by a message or a reload and by
  nothing else.  The live checkbox does otherwise.  On the example page the box of the
  first row is unchecked and the server answers the \<^verbatim>\<open>POST\<close> with a response that is
  not \<^verbatim>\<open>ok\<close>: the row's \<^verbatim>\<open>data-live\<close> goes from \<^verbatim>\<open>true\<close> to \<^verbatim>\<open>false\<close> and the row is
  hidden, while no message is shown and nothing else is done.
\<close>

theorem liveToggle_failure_changes_row:
  "let sent = handle id id (LiveToggleChanged 0 False) library;
       failed = handle id id (FetchSettled 0 (Resolved False (Some ''Internal Server Error''))) sent
   in data_live (rows sent ! 0) = Some ''true'' \<and> display (rows sent ! 0) = [] \<and>
      data_live (rows failed ! 0) = Some ''false'' \<and> display (rows failed ! 0) = ''none'' \<and>
      errorMessageDiv failed = errorMessageDiv sent \<and> effects failed = effects sent \<and>
      failure (Resolved False (Some ''Internal Server Error'')) \<and>
      \<not> onlyMessageOrReload sent failed"
  by code_simp

end
